theory Spec2Isabelle
  imports Main "HOL-Library.Sublist" "HOL-Library.Multiset"
begin

section \<open>Task rules: data model\<close>

text \<open>
  The development embeds the task service (module \<open>services/task/taskRules\<close>, with the
  types of \<open>services/task/taskTypes\<close>) and the status route of the task controller.

  Portuguese string literals are written without their diacritics (\<open>''Concluida''\<close>,
  \<open>''Edicao''\<close>, \<open>''Alteracao de Status''\<close>, \<open>''Automatica''\<close>, \<open>''Proximas ao vencimento''\<close>
  and so on); the code only ever compares these literals for equality.
\<close>

datatype TaskStatus = Pendente | Concluida | Vencida

datatype TaskImportance = Alta | Media | Baixa

text \<open>Both enums are string enums: a member is its string at run time.\<close>

fun statusValue :: "TaskStatus \<Rightarrow> string" where
  "statusValue Pendente = ''Pendente''"
| "statusValue Concluida = ''Concluida''"
| "statusValue Vencida = ''Vencida''"

fun importanceValue :: "TaskImportance \<Rightarrow> string" where
  "importanceValue Alta = ''Alta''"
| "importanceValue Media = ''Media''"
| "importanceValue Baixa = ''Baixa''"

text \<open>
  \<open>TaskCreateRequest\<close> and \<open>TaskUpdateRequest\<close> declare the same five fields, and
  \<open>TaskEntity\<close> has these five and four more: the entity is a record extension of the
  request. A \<open>string | null\<close> field is a \<open>string option\<close>; a \<open>Date\<close> is its time value
  in milliseconds.
\<close>

record TaskRequest =
  titulo :: string
  descricao :: "string option"
  dataVencimento :: "string option"
  horaVencimento :: "string option"
  importancia :: TaskImportance

record TaskEntity = TaskRequest +
  id_task :: string
  status :: TaskStatus
  dataCriacao :: int
  dataAtualizacao :: int

text \<open>
  The argument of \<open>recordHistory\<close> has six fields; \<open>HistoryEntry\<close> adds the identifier
  and the timestamp.
\<close>

record HistoryData =
  idTarefa :: string
  tipoAlteracao :: string
  campoAlterado :: "string option"
  valorAnterior :: "string option"
  valorNovo :: "string option"
  origemAlteracao :: string

record HistoryEntry = HistoryData +
  id_entry :: string
  dataAlteracao :: int

record TaskListFilters =
  filterStatus :: string
  filterImportance :: string
  filterPeriod :: string
  orderBy :: string
  orderDirection :: string
  searchTerm :: "string option"

datatype error =
  tituloObrigatorio | tituloMuitoLongo | descricaoMuitoLonga | alteracaoNaoPermitida

text \<open>
  The two module-level arrays, together with what the module reads from its environment:
  the \<open>n\<close>-th evaluation of \<open>new Date()\<close> yields \<open>clock n\<close> and the \<open>n\<close>-th call of
  \<open>uuidv4()\<close> yields \<open>uuids n\<close>; \<open>ticks\<close> and \<open>drawn\<close> count the evaluations so far.
\<close>

record world =
  tasks :: "TaskEntity list"
  history :: "HistoryEntry list"
  clock :: "nat \<Rightarrow> int"
  ticks :: nat
  uuids :: "nat \<Rightarrow> string"
  drawn :: nat

definition newDate :: "world \<Rightarrow> int \<times> world" where
  "newDate w = (clock w (ticks w), w\<lparr>ticks := Suc (ticks w)\<rparr>)"

definition uuidv4 :: "world \<Rightarrow> string \<times> world" where
  "uuidv4 w = (uuids w (drawn w), w\<lparr>drawn := Suc (drawn w)\<rparr>)"

section \<open>The JavaScript library functions the rules use\<close>

text \<open>A \<open>string | null\<close> value in a condition: \<open>null\<close> and the empty string are falsy.\<close>

fun truthy :: "string option \<Rightarrow> bool" where
  "truthy None = False"
| "truthy (Some s) = (s \<noteq> [])"

text \<open>\<open>String(v)\<close> for a string or \<open>null\<close>.\<close>

fun String_js :: "string option \<Rightarrow> string" where
  "String_js None = ''null''"
| "String_js (Some s) = s"

definition isSpace :: "char \<Rightarrow> bool" where
  "isSpace c = (c \<in> set [CHR '' '', CHR 0x09, CHR 0x0A, CHR 0x0B, CHR 0x0C, CHR 0x0D])"

definition trim :: "string \<Rightarrow> string" where
  "trim s = rev (dropWhile isSpace (rev (dropWhile isSpace s)))"

definition lowerChar :: "char \<Rightarrow> char" where
  "lowerChar c = (let n = (of_char c :: nat) in if 65 \<le> n \<and> n \<le> 90 then char_of (n + 32) else c)"

definition toLowerCase :: "string \<Rightarrow> string" where
  "toLowerCase s = map lowerChar s"

fun includes_js :: "string \<Rightarrow> string \<Rightarrow> bool" where
  "includes_js [] sub = (sub = [])"
| "includes_js (x # xs) sub = (prefix sub (x # xs) \<or> includes_js xs sub)"

fun split_js :: "char \<Rightarrow> string \<Rightarrow> string list" where
  "split_js sep [] = [[]]"
| "split_js sep (x # xs) =
     (if x = sep then [] # split_js sep xs
      else (case split_js sep xs of [] \<Rightarrow> [[x]] | p # ps \<Rightarrow> (x # p) # ps))"

text \<open>
  \<open>Number\<close> on the pieces of a date or time: a run of decimal digits is its value, the
  empty string is 0, and \<open>None\<close> stands for \<open>NaN\<close>. Stored dates and times have the
  documented formats \<open>DD/MM/YYYY\<close> and \<open>HH:MM\<close>, so any other text counts as \<open>NaN\<close> here.
\<close>

definition digitValue :: "char \<Rightarrow> int option" where
  "digitValue c = (let n = (of_char c :: nat) in if 48 \<le> n \<and> n \<le> 57 then Some (int n - 48) else None)"

fun digits :: "int \<Rightarrow> string \<Rightarrow> int option" where
  "digits acc [] = Some acc"
| "digits acc (c # cs) = (case digitValue c of None \<Rightarrow> None | Some d \<Rightarrow> digits (10 * acc + d) cs)"

definition Number_js :: "string \<Rightarrow> int option" where
  "Number_js s = digits 0 s"

text \<open>
  \<open>s.split(sep).map(Number)\<close> followed by array destructuring: position \<open>k\<close> of the
  result, \<open>undefined\<close> (which every later use turns into \<open>NaN\<close>) when there is no such piece.
\<close>

definition piece :: "char \<Rightarrow> string \<Rightarrow> nat \<Rightarrow> int option" where
  "piece sep s k =
     (let parts = map Number_js (split_js sep s)
      in if k < length parts then parts ! k else None)"

subsection \<open>Dates\<close>

text \<open>
  A \<open>Date\<close> is its time value in milliseconds, \<open>None\<close> for an invalid date. Dates and
  times are naive local values: local time is taken without offset and without daylight
  saving, so a local calendar day is a block of \<open>msPerDay\<close> milliseconds.
\<close>

type_synonym jsdate = "int option"

definition msPerDay :: int where
  "msPerDay = 86400000"

definition timeClip :: "int \<Rightarrow> jsdate" where
  "timeClip t = (if \<bar>t\<bar> \<le> 8640000000000000 then Some t else None)"

text \<open>Day number of the first day of month \<open>m\<close> (1 to 12) of year \<open>y\<close>, plus \<open>d - 1\<close>.\<close>

definition daysFromCivil :: "int \<Rightarrow> int \<Rightarrow> int \<Rightarrow> int" where
  "daysFromCivil y m d =
     (let y' = (if m \<le> 2 then y - 1 else y);
          era = y' div 400;
          yoe = y' - era * 400;
          mp = (m + 9) mod 12;
          doy = (153 * mp + 2) div 5 + d - 1;
          doe = yoe * 365 + yoe div 4 - yoe div 100 + doy
      in era * 146097 + doe - 719468)"

text \<open>The calendar date (year, month 1 to 12, day) of a day number.\<close>

definition civilFromDays :: "int \<Rightarrow> int \<times> int \<times> int" where
  "civilFromDays z0 =
     (let z = z0 + 719468;
          era = z div 146097;
          doe = z - era * 146097;
          yoe = (doe - doe div 1460 + doe div 36524 - doe div 146096) div 365;
          y = yoe + era * 400;
          doy = doe - (365 * yoe + yoe div 4 - yoe div 100);
          mp = (5 * doy + 2) div 153;
          d = doy - (153 * mp + 2) div 5 + 1;
          m = (if mp < 10 then mp + 3 else mp - 9)
      in (if m \<le> 2 then y + 1 else y, m, d))"

text \<open>\<open>MakeDay(year, month, date)\<close> with a zero-based month that may lie outside 0 to 11.\<close>

definition makeDay :: "int \<Rightarrow> int \<Rightarrow> int \<Rightarrow> int" where
  "makeDay y mIndex d = daysFromCivil (y + mIndex div 12) (mIndex mod 12 + 1) 1 + d - 1"

text \<open>\<open>new Date(year, monthIndex, day)\<close>: a year from 0 to 99 means 1900 + year.\<close>

definition Date_ymd :: "int option \<Rightarrow> int option \<Rightarrow> int option \<Rightarrow> jsdate" where
  "Date_ymd year mIndex day =
     (case (year, mIndex, day) of
        (Some y, Some m, Some d) \<Rightarrow>
          timeClip (makeDay (if 0 \<le> y \<and> y \<le> 99 then 1900 + y else y) m d * msPerDay)
      | _ \<Rightarrow> None)"

definition getFullYear :: "int \<Rightarrow> int" where
  "getFullYear t = fst (civilFromDays (t div msPerDay))"

definition getMonth :: "int \<Rightarrow> int" where
  "getMonth t = fst (snd (civilFromDays (t div msPerDay))) - 1"

definition getDate :: "int \<Rightarrow> int" where
  "getDate t = snd (snd (civilFromDays (t div msPerDay)))"

text \<open>
  \<open>date.setHours(h, m, s, ms)\<close>. The calls with fewer arguments keep the seconds and
  milliseconds the date has; every date they are applied to is a local midnight or
  \<open>new Date()\<close>, and the callers below pass the kept parts explicitly.
\<close>

definition setHours :: "jsdate \<Rightarrow> int option \<Rightarrow> int option \<Rightarrow> int option \<Rightarrow> int option \<Rightarrow> jsdate" where
  "setHours t h m s ms =
     (case (t, h, m, s, ms) of
        (Some t', Some h', Some m', Some s', Some ms') \<Rightarrow>
          timeClip ((t' div msPerDay) * msPerDay + h' * 3600000 + m' * 60000 + s' * 1000 + ms')
      | _ \<Rightarrow> None)"

definition secFromTime :: "jsdate \<Rightarrow> int option" where
  "secFromTime t = map_option (\<lambda>t'. (t' div 1000) mod 60) t"

definition msFromTime :: "jsdate \<Rightarrow> int option" where
  "msFromTime t = map_option (\<lambda>t'. t' mod 1000) t"

text \<open>Relational operators on dates compare time values; with \<open>NaN\<close> they are false.\<close>

fun date_lt :: "jsdate \<Rightarrow> jsdate \<Rightarrow> bool" where
  "date_lt (Some a) (Some b) = (a < b)"
| "date_lt _ _ = False"

fun date_le :: "jsdate \<Rightarrow> jsdate \<Rightarrow> bool" where
  "date_le (Some a) (Some b) = (a \<le> b)"
| "date_le _ _ = False"

fun date_eq :: "jsdate \<Rightarrow> jsdate \<Rightarrow> bool" where
  "date_eq (Some a) (Some b) = (a = b)"
| "date_eq _ _ = False"

text \<open>
  The date of a \<open>DD/MM/YYYY\<close> string at local midnight, as every function of the module
  computes it:
  \<^verbatim>\<open>const [day, month, year] = s.split('/').map(Number);
  const dueDate = new Date(year, month - 1, day);\<close>
\<close>

definition parseDueDate :: "string \<Rightarrow> jsdate" where
  "parseDueDate s =
     (let day = piece (CHR ''/'') s 0; month = piece (CHR ''/'') s 1; year = piece (CHR ''/'') s 2
      in Date_ymd year (map_option (\<lambda>m. m - 1) month) day)"

text \<open>
  \<^verbatim>\<open>const [hours, minutes] = s.split(':').map(Number); dueDate.setHours(hours, minutes);\<close>
\<close>

definition applyDueTime :: "jsdate \<Rightarrow> string \<Rightarrow> jsdate" where
  "applyDueTime dueDate s =
     (let hours = piece (CHR '':'') s 0; minutes = piece (CHR '':'') s 1
      in setHours dueDate hours minutes (secFromTime dueDate) (msFromTime dueDate))"

text \<open>The string of a field that a preceding condition has found truthy.\<close>

fun text_of :: "string option \<Rightarrow> string" where
  "text_of None = []"
| "text_of (Some s) = s"

definition dueDateOf :: "string option \<Rightarrow> jsdate" where
  "dueDateOf dv = parseDueDate (text_of dv)"

text \<open>
  \<open>Array.prototype.findIndex\<close>, with \<open>None\<close> for the result -1, and
  \<open>Array.prototype.splice(i, 1)\<close>.
\<close>

fun findIndex :: "('a \<Rightarrow> bool) \<Rightarrow> 'a list \<Rightarrow> nat option" where
  "findIndex P [] = None"
| "findIndex P (x # xs) = (if P x then Some 0 else map_option Suc (findIndex P xs))"

definition splice1 :: "nat \<Rightarrow> 'a list \<Rightarrow> 'a list" where
  "splice1 i xs = take i xs @ drop (Suc i) xs"

text \<open>
  \<open>Array.prototype.sort\<close> with a comparison function. The sort is stable, and a result
  \<open>NaN\<close> of the comparison function counts as 0. For a consistent comparison function
  the language fixes the result: the stable sorted arrangement, which insertion computes.
\<close>

definition sortValue :: "int option \<Rightarrow> int" where
  "sortValue v = (case v of None \<Rightarrow> 0 | Some n \<Rightarrow> n)"

fun insert_js :: "('a \<Rightarrow> 'a \<Rightarrow> int option) \<Rightarrow> 'a \<Rightarrow> 'a list \<Rightarrow> 'a list" where
  "insert_js cmp x [] = [x]"
| "insert_js cmp x (y # ys) =
     (if sortValue (cmp x y) \<le> 0 then x # y # ys else y # insert_js cmp x ys)"

definition sort_js :: "('a \<Rightarrow> 'a \<Rightarrow> int option) \<Rightarrow> 'a list \<Rightarrow> 'a list" where
  "sort_js cmp xs = foldr (insert_js cmp) xs []"

section \<open>The task rules\<close>

subsection \<open>recordHistory\<close>

definition recordHistory :: "HistoryData \<Rightarrow> world \<Rightarrow> world" where
  "recordHistory data w =
     (let (u, w1) = uuidv4 w;
          (d, w2) = newDate w1;
          entry = \<lparr>idTarefa = idTarefa data, tipoAlteracao = tipoAlteracao data,
                   campoAlterado = campoAlterado data, valorAnterior = valorAnterior data,
                   valorNovo = valorNovo data, origemAlteracao = origemAlteracao data,
                   id_entry = u, dataAlteracao = d\<rparr>
      in w2\<lparr>history := history w2 @ [entry]\<rparr>)"

subsection \<open>taskCreate\<close>

text \<open>The \<open>@validation\<close> block, which \<open>taskCreate\<close> and \<open>taskUpdate\<close> both open with.\<close>

definition validation :: "TaskRequest \<Rightarrow> error option" where
  "validation data =
     (if titulo data = [] \<or> length (trim (titulo data)) = 0 then Some tituloObrigatorio
      else if length (titulo data) > 100 then Some tituloMuitoLongo
      else if truthy (descricao data) \<and> length (text_of (descricao data)) > 500
        then Some descricaoMuitoLonga
      else None)"

definition taskCreate :: "TaskRequest \<Rightarrow> world \<Rightarrow> (error + TaskEntity) \<times> world" where
  "taskCreate data w =
     (case validation data of
        Some e \<Rightarrow> (Inl e, w)
      | None \<Rightarrow>
          (let (u, w1) = uuidv4 w;
               (created, w2) = newDate w1;
               (updated, w3) = newDate w2;
               newTask = \<lparr>titulo = titulo data, descricao = descricao data,
                          dataVencimento = dataVencimento data,
                          horaVencimento = horaVencimento data,
                          importancia = importancia data,
                          id_task = u, status = Pendente,
                          dataCriacao = created, dataAtualizacao = updated\<rparr>;
               w4 = w3\<lparr>tasks := tasks w3 @ [newTask]\<rparr>;
               w5 = recordHistory
                      \<lparr>idTarefa = id_task newTask, tipoAlteracao = ''Criacao'',
                       campoAlterado = None, valorAnterior = None, valorNovo = None,
                       origemAlteracao = ''Manual''\<rparr> w4
           in (Inr newTask, w5)))"

subsection \<open>taskList\<close>

text \<open>The predicate of each \<open>case\<close> of the period \<open>switch\<close>, at the moment \<open>now\<close>.\<close>

definition periodFilter :: "string \<Rightarrow> int \<Rightarrow> TaskEntity \<Rightarrow> bool" where
  "periodFilter period now task =
     (let today = Date_ymd (Some (getFullYear now)) (Some (getMonth now)) (Some (getDate now));
          dv = dataVencimento task
      in if period = ''Hoje'' then
           truthy dv \<and> date_eq (dueDateOf dv) today
         else if period = ''Esta semana'' then
           (let weekEnd = (case today of None \<Rightarrow> None | Some t \<Rightarrow> timeClip (t + 7 * msPerDay))
            in truthy dv \<and> date_le today (dueDateOf dv) \<and> date_le (dueDateOf dv) weekEnd)
         else if period = ''Este mes'' then
           truthy dv \<and> piece (CHR ''/'') (text_of dv) 1 = Some (getMonth now + 1)
                     \<and> piece (CHR ''/'') (text_of dv) 2 = Some (getFullYear now)
         else if period = ''Proximas ao vencimento'' then
           (let fortyEightHours = timeClip (now + 48 * 60 * 60 * 1000);
                dueDate = (if truthy (horaVencimento task)
                           then applyDueTime (dueDateOf dv) (text_of (horaVencimento task))
                           else dueDateOf dv)
            in truthy dv \<and> date_le (Some now) dueDate \<and> date_le dueDate fortyEightHours
                 \<and> status task = Pendente)
         else if period = ''Vencidas'' then status task = Vencida
         else if period = ''Sem data'' then \<not> truthy dv
         else True)"

definition searchFilter :: "string \<Rightarrow> TaskEntity \<Rightarrow> bool" where
  "searchFilter searchLower task =
     (includes_js (toLowerCase (titulo task)) searchLower
      \<or> (truthy (descricao task)
          \<and> includes_js (toLowerCase (text_of (descricao task))) searchLower))"

fun importanceOrder :: "TaskImportance \<Rightarrow> int" where
  "importanceOrder Alta = 1"
| "importanceOrder Media = 2"
| "importanceOrder Baixa = 3"

text \<open>The comparison function handed to \<open>sort\<close>; \<open>None\<close> is \<open>NaN\<close>.\<close>

definition comparison :: "string \<Rightarrow> TaskEntity \<Rightarrow> TaskEntity \<Rightarrow> int option" where
  "comparison ob a b =
     (if ob = ''Data de vencimento'' then
        (if \<not> truthy (dataVencimento a) \<and> \<not> truthy (dataVencimento b) then Some 0
         else if \<not> truthy (dataVencimento a) then Some 1
         else if \<not> truthy (dataVencimento b) then Some (- 1)
         else (case (dueDateOf (dataVencimento a), dueDateOf (dataVencimento b)) of
                 (Some dateA, Some dateB) \<Rightarrow> Some (dateA - dateB)
               | _ \<Rightarrow> None))
      else if ob = ''Importancia'' then
        Some (importanceOrder (importancia a) - importanceOrder (importancia b))
      else if ob = ''Data de criacao'' then Some (dataCriacao a - dataCriacao b)
      else Some 0)"

definition compareFn :: "TaskListFilters \<Rightarrow> TaskEntity \<Rightarrow> TaskEntity \<Rightarrow> int option" where
  "compareFn filters a b =
     (if orderDirection filters = ''Crescente'' then comparison (orderBy filters) a b
      else map_option uminus (comparison (orderBy filters) a b))"

definition taskList :: "TaskListFilters \<Rightarrow> world \<Rightarrow> TaskEntity list \<times> world" where
  "taskList filters w =
     (let byStatus =
            (if filterStatus filters \<noteq> ''Todas''
             then filter (\<lambda>task. statusValue (status task) = filterStatus filters) (tasks w)
             else tasks w);
          byImportance =
            (if filterImportance filters \<noteq> ''Todas''
             then filter (\<lambda>task. importanceValue (importancia task) = filterImportance filters)
                    byStatus
             else byStatus);
          (byPeriod, w') =
            (if filterPeriod filters \<noteq> ''Todas''
             then (let (now, w1) = newDate w
                   in (filter (periodFilter (filterPeriod filters) now) byImportance, w1))
             else (byImportance, w));
          bySearch =
            (if truthy (searchTerm filters)
             then filter (searchFilter (toLowerCase (text_of (searchTerm filters)))) byPeriod
             else byPeriod)
      in (sort_js (compareFn filters) bySearch, w'))"

subsection \<open>taskGet\<close>

definition taskGet :: "string \<Rightarrow> world \<Rightarrow> TaskEntity option" where
  "taskGet i w = find (\<lambda>t. id_task t = i) (tasks w)"

subsection \<open>taskUpdate\<close>

record change =
  field :: string
  oldValue :: "string option"
  newValue :: "string option"

text \<open>
  The block after the field update: an overdue task whose submitted due date is not
  before today goes back to \<open>Pendente\<close>, and the change is recorded.
\<close>

definition resetOverdue :: "string \<Rightarrow> nat \<Rightarrow> TaskRequest \<Rightarrow> world \<Rightarrow> world" where
  "resetOverdue i taskIndex data w =
     (if status (tasks w ! taskIndex) = Vencida \<and> truthy (dataVencimento data) then
        (let dueDate = dueDateOf (dataVencimento data);
             (n, w1) = newDate w;
             today = setHours (Some n) (Some 0) (Some 0) (Some 0) (Some 0)
         in if date_le today dueDate then
              recordHistory
                \<lparr>idTarefa = i, tipoAlteracao = ''Alteracao de Status'',
                 campoAlterado = Some ''status'',
                 valorAnterior = Some (statusValue Vencida),
                 valorNovo = Some (statusValue Pendente),
                 origemAlteracao = ''Automatica''\<rparr>
                (w1\<lparr>tasks := (tasks w1)[taskIndex := (tasks w1 ! taskIndex)\<lparr>status := Pendente\<rparr>]\<rparr>)
            else w1)
      else w)"

definition changedFields :: "TaskEntity \<Rightarrow> TaskRequest \<Rightarrow> change list" where
  "changedFields oldTask data =
     (if titulo oldTask \<noteq> titulo data
      then [\<lparr>field = ''titulo'', oldValue = Some (titulo oldTask),
             newValue = Some (titulo data)\<rparr>] else [])
     @ (if descricao oldTask \<noteq> descricao data
        then [\<lparr>field = ''descricao'', oldValue = descricao oldTask,
               newValue = descricao data\<rparr>] else [])
     @ (if dataVencimento oldTask \<noteq> dataVencimento data
        then [\<lparr>field = ''dataVencimento'', oldValue = dataVencimento oldTask,
               newValue = dataVencimento data\<rparr>] else [])
     @ (if horaVencimento oldTask \<noteq> horaVencimento data
        then [\<lparr>field = ''horaVencimento'', oldValue = horaVencimento oldTask,
               newValue = horaVencimento data\<rparr>] else [])
     @ (if importancia oldTask \<noteq> importancia data
        then [\<lparr>field = ''importancia'',
               oldValue = Some (importanceValue (importancia oldTask)),
               newValue = Some (importanceValue (importancia data))\<rparr>] else [])"

definition recordChange :: "string \<Rightarrow> world \<Rightarrow> change \<Rightarrow> world" where
  "recordChange i w c =
     recordHistory
       \<lparr>idTarefa = i, tipoAlteracao = ''Edicao'', campoAlterado = Some (field c),
        valorAnterior = Some (String_js (oldValue c)),
        valorNovo = Some (String_js (newValue c)),
        origemAlteracao = ''Manual''\<rparr> w"

definition taskUpdate ::
  "string \<Rightarrow> TaskRequest \<Rightarrow> world \<Rightarrow> (error + TaskEntity option) \<times> world" where
  "taskUpdate i data w =
     (case findIndex (\<lambda>t. id_task t = i) (tasks w) of
        None \<Rightarrow> (Inr None, w)
      | Some taskIndex \<Rightarrow>
          (case validation data of
             Some e \<Rightarrow> (Inl e, w)
           | None \<Rightarrow>
               (let oldTask = tasks w ! taskIndex;
                    (updated, w1) = newDate w;
                    w2 = w1\<lparr>tasks := (tasks w1)[taskIndex :=
                            (tasks w1 ! taskIndex)
                              \<lparr>titulo := titulo data, descricao := descricao data,
                               dataVencimento := dataVencimento data,
                               horaVencimento := horaVencimento data,
                               importancia := importancia data,
                               dataAtualizacao := updated\<rparr>]\<rparr>;
                    w3 = resetOverdue i taskIndex data w2;
                    w4 = foldl (recordChange i) w3 (changedFields oldTask data)
                in (Inr (Some (tasks w4 ! taskIndex)), w4))))"

subsection \<open>taskDelete\<close>

definition taskDelete :: "string \<Rightarrow> world \<Rightarrow> bool \<times> world" where
  "taskDelete i w =
     (case findIndex (\<lambda>t. id_task t = i) (tasks w) of
        None \<Rightarrow> (False, w)
      | Some taskIndex \<Rightarrow>
          (let w1 = recordHistory
                      \<lparr>idTarefa = i, tipoAlteracao = ''Exclusao'', campoAlterado = None,
                       valorAnterior = None, valorNovo = None,
                       origemAlteracao = ''Manual''\<rparr> w
           in (True, w1\<lparr>tasks := splice1 taskIndex (tasks w1)\<rparr>)))"

subsection \<open>taskUpdateStatus\<close>

definition taskUpdateStatus ::
  "string \<Rightarrow> TaskStatus \<Rightarrow> world \<Rightarrow> (error + TaskEntity option) \<times> world" where
  "taskUpdateStatus i newStatus w =
     (case findIndex (\<lambda>t. id_task t = i) (tasks w) of
        None \<Rightarrow> (Inr None, w)
      | Some taskIndex \<Rightarrow>
          (let oldStatus = status (tasks w ! taskIndex)
           in if oldStatus = Vencida \<and> newStatus = Pendente then (Inl alteracaoNaoPermitida, w)
              else
                (let w1 = w\<lparr>tasks := (tasks w)[taskIndex :=
                             (tasks w ! taskIndex)\<lparr>status := newStatus\<rparr>]\<rparr>;
                     (d, w2) = newDate w1;
                     w3 = w2\<lparr>tasks := (tasks w2)[taskIndex :=
                             (tasks w2 ! taskIndex)\<lparr>dataAtualizacao := d\<rparr>]\<rparr>;
                     w4 = recordHistory
                            \<lparr>idTarefa = i, tipoAlteracao = ''Alteracao de Status'',
                             campoAlterado = Some ''status'',
                             valorAnterior = Some (statusValue oldStatus),
                             valorNovo = Some (statusValue newStatus),
                             origemAlteracao = ''Manual''\<rparr> w3
                 in (Inr (Some (tasks w4 ! taskIndex)), w4))))"

subsection \<open>taskCheckOverdue\<close>

text \<open>The due moment the sweep computes for a task that has a due date.\<close>

definition dueDate_checkOverdue :: "TaskEntity \<Rightarrow> jsdate" where
  "dueDate_checkOverdue task =
     (let dueDate = dueDateOf (dataVencimento task)
      in if truthy (horaVencimento task)
         then applyDueTime dueDate (text_of (horaVencimento task))
         else setHours dueDate (Some 23) (Some 59) (Some 59) (msFromTime dueDate))"

definition isOverdue :: "int \<Rightarrow> TaskEntity \<Rightarrow> bool" where
  "isOverdue now task =
     (status task = Pendente \<and> truthy (dataVencimento task)
      \<and> date_lt (dueDate_checkOverdue task) (Some now))"

text \<open>
  The \<open>for\<close> loop over the tasks. It writes to the task at hand and to \<open>history\<close>, never
  to the array \<open>tasks\<close> itself, so the tasks still to visit are passed as a list and the
  visited ones are returned.
\<close>

fun checkOverdue_loop :: "int \<Rightarrow> TaskEntity list \<Rightarrow> world \<Rightarrow> TaskEntity list \<times> world" where
  "checkOverdue_loop now [] w = ([], w)"
| "checkOverdue_loop now (task # rest) w =
     (if isOverdue now task then
        (let (d, w1) = newDate w;
             task' = task\<lparr>status := Vencida, dataAtualizacao := d\<rparr>;
             w2 = recordHistory
                    \<lparr>idTarefa = id_task task', tipoAlteracao = ''Alteracao de Status'',
                     campoAlterado = Some ''status'',
                     valorAnterior = Some (statusValue Pendente),
                     valorNovo = Some (statusValue Vencida),
                     origemAlteracao = ''Automatica''\<rparr> w1;
             (rest', w3) = checkOverdue_loop now rest w2
         in (task' # rest', w3))
      else
        (let (rest', w1) = checkOverdue_loop now rest w in (task # rest', w1)))"

definition taskCheckOverdue :: "world \<Rightarrow> world" where
  "taskCheckOverdue w =
     (let (now, w1) = newDate w;
          (ts, w2) = checkOverdue_loop now (tasks w1) w1
      in w2\<lparr>tasks := ts\<rparr>)"

subsection \<open>taskGetHistory\<close>

text \<open>
  \<open>history.filter\<close> returns a new array, so the \<open>sort\<close> at the end orders that copy and
  \<open>history\<close> itself is only read. An optional parameter left out is \<open>None\<close>.
\<close>

definition taskGetHistory ::
  "string \<Rightarrow> string option \<Rightarrow> string option \<Rightarrow> world \<Rightarrow> HistoryEntry list" where
  "taskGetHistory i filterTipo filterOrigem w =
     (let entries = filter (\<lambda>h. idTarefa h = i) (history w);
          byTipo =
            (if truthy filterTipo \<and> filterTipo \<noteq> Some ''Todas''
             then filter (\<lambda>h. tipoAlteracao h = text_of filterTipo) entries else entries);
          byOrigem =
            (if truthy filterOrigem \<and> filterOrigem \<noteq> Some ''Todas''
             then filter (\<lambda>h. origemAlteracao h = text_of filterOrigem) byTipo else byTipo)
      in sort_js (\<lambda>a b. Some (dataAlteracao b - dataAlteracao a)) byOrigem)"

section \<open>The status route of the controller\<close>

text \<open>
  \<open>updateStatusHandler\<close> validates the request before it calls \<open>taskUpdateStatus\<close>. The
  identifier check of the schema library is a parameter \<open>isUuid\<close>; the body schema is
  \<open>z.enum(['Pendente', 'Concluida'])\<close>, and \<open>None\<close> is a body without a string \<open>status\<close>.
\<close>

datatype response =
  Success TaskEntity | ValidationError string | NotFound | Failure error

definition statusSchema :: "string option \<Rightarrow> TaskStatus option" where
  "statusSchema body =
     (if body = Some ''Pendente'' then Some Pendente
      else if body = Some ''Concluida'' then Some Concluida
      else None)"

definition updateStatusHandler ::
  "(string \<Rightarrow> bool) \<Rightarrow> string \<Rightarrow> string option \<Rightarrow> world \<Rightarrow> response \<times> world" where
  "updateStatusHandler isUuid idParam body w =
     (if \<not> isUuid idParam then (ValidationError ''idTarefaInvalido'', w)
      else
        (case statusSchema body of
           None \<Rightarrow> (ValidationError ''statusInvalido'', w)
         | Some newStatus \<Rightarrow>
             (case taskUpdateStatus idParam newStatus w of
                (Inl e, w') \<Rightarrow> (Failure e, w')
              | (Inr None, w') \<Rightarrow> (NotFound, w')
              | (Inr (Some task), w') \<Rightarrow> (Success task, w'))))"

section \<open>Operations as steps\<close>

text \<open>
  The operations the service exports, and the world each leaves behind. A store is
  reachable when a sequence of operations builds it from the empty arrays.
\<close>

datatype operation =
  Create TaskRequest
| ListTasks TaskListFilters
| Get string
| Update string TaskRequest
| Delete string
| UpdateStatus string TaskStatus
| CheckOverdue
| GetHistory string "string option" "string option"

fun exec :: "operation \<Rightarrow> world \<Rightarrow> world" where
  "exec (Create data) w = snd (taskCreate data w)"
| "exec (ListTasks filters) w = snd (taskList filters w)"
| "exec (Get i) w = w"
| "exec (Update i data) w = snd (taskUpdate i data w)"
| "exec (Delete i) w = snd (taskDelete i w)"
| "exec (UpdateStatus i newStatus) w = snd (taskUpdateStatus i newStatus w)"
| "exec CheckOverdue w = taskCheckOverdue w"
| "exec (GetHistory i filterTipo filterOrigem) w = w"

definition emptyWorld :: "(nat \<Rightarrow> int) \<Rightarrow> (nat \<Rightarrow> string) \<Rightarrow> world" where
  "emptyWorld c u = \<lparr>tasks = [], history = [], clock = c, ticks = 0, uuids = u, drawn = 0\<rparr>"

inductive reachable :: "world \<Rightarrow> bool" where
  start: "reachable (emptyWorld c u)"
| step: "reachable w \<Longrightarrow> reachable (exec op w)"

section \<open>Sample stores\<close>

text \<open>
  A clock that starts on 15/03/2024 at 10:00:00 and advances by a millisecond with each
  reading, an identifier supply, and stores built from given tasks.
\<close>

definition clock0 :: "nat \<Rightarrow> int" where
  "clock0 n = 1710496800000 + int n"

definition uuids0 :: "nat \<Rightarrow> string" where
  "uuids0 n = replicate (Suc n) (CHR ''u'')"

definition sampleTask ::
  "string \<Rightarrow> TaskStatus \<Rightarrow> string option \<Rightarrow> string option \<Rightarrow> TaskEntity" where
  "sampleTask i st dv hv =
     \<lparr>titulo = ''Pay bills'', descricao = None, dataVencimento = dv, horaVencimento = hv,
      importancia = Alta, id_task = i, status = st,
      dataCriacao = 1710400000000, dataAtualizacao = 1710400000000\<rparr>"

definition storeOf :: "TaskEntity list \<Rightarrow> world" where
  "storeOf ts =
     \<lparr>tasks = ts, history = [], clock = clock0, ticks = 0, uuids = uuids0, drawn = 0\<rparr>"

definition untitled :: TaskRequest where
  "untitled =
     \<lparr>titulo = [], descricao = None, dataVencimento = None, horaVencimento = None,
      importancia = Alta\<rparr>"

section \<open>The history an operation leaves, in the words of the specification\<close>

text \<open>
  The entries an operation appended, given the worlds before and after it, and the six
  fields of an entry that the caller of \<open>recordHistory\<close> chooses
  (\<open>HistoryData.truncate\<close> drops the identifier and the timestamp).
\<close>

definition appended :: "world \<Rightarrow> world \<Rightarrow> HistoryEntry list" where
  "appended w w' = drop (length (history w)) (history w')"

definition isEdit :: "HistoryEntry \<Rightarrow> bool" where
  "isEdit h = (tipoAlteracao h = ''Edicao'')"

definition isStatusChange :: "HistoryEntry \<Rightarrow> bool" where
  "isStatusChange h = (tipoAlteracao h = ''Alteracao de Status'')"

text \<open>
  The five tracked fields, each with the text-or-null value it has in a snapshot. An
  update yields one \<open>Edicao\<close> entry for each tracked field whose value differs between
  the old and the new snapshot, in this order.
\<close>

definition trackedFields :: "(string \<times> (TaskRequest \<Rightarrow> string option)) list" where
  "trackedFields =
     [(''titulo'', \<lambda>r. Some (titulo r)),
      (''descricao'', descricao),
      (''dataVencimento'', dataVencimento),
      (''horaVencimento'', horaVencimento),
      (''importancia'', \<lambda>r. Some (importanceValue (importancia r)))]"

definition differs :: "TaskRequest \<Rightarrow> TaskRequest \<Rightarrow> string \<times> (TaskRequest \<Rightarrow> string option) \<Rightarrow> bool" where
  "differs old new f = (snd f old \<noteq> snd f new)"

definition editEntry ::
  "string \<Rightarrow> TaskRequest \<Rightarrow> TaskRequest \<Rightarrow> string \<times> (TaskRequest \<Rightarrow> string option) \<Rightarrow> HistoryData" where
  "editEntry i old new f =
     \<lparr>idTarefa = i, tipoAlteracao = ''Edicao'', campoAlterado = Some (fst f),
      valorAnterior = Some (String_js (snd f old)),
      valorNovo = Some (String_js (snd f new)), origemAlteracao = ''Manual''\<rparr>"

definition editEntries :: "string \<Rightarrow> TaskRequest \<Rightarrow> TaskRequest \<Rightarrow> HistoryData list" where
  "editEntries i old new = map (editEntry i old new) (filter (differs old new) trackedFields)"

definition statusEntry :: "string \<Rightarrow> TaskStatus \<Rightarrow> TaskStatus \<Rightarrow> string \<Rightarrow> HistoryData" where
  "statusEntry i old new origin =
     \<lparr>idTarefa = i, tipoAlteracao = ''Alteracao de Status'', campoAlterado = Some ''status'',
      valorAnterior = Some (statusValue old), valorNovo = Some (statusValue new),
      origemAlteracao = origin\<rparr>"

text \<open>
  The start of the local day of a moment, and the condition of the reset from
  \<open>Vencida\<close> to \<open>Pendente\<close>: the stored task is overdue, the payload has a due date, and
  that date is today or later at the moment \<open>now\<close>.
\<close>

definition startOfDay :: "int \<Rightarrow> jsdate" where
  "startOfDay now = timeClip (now - now mod msPerDay)"

definition resetFires :: "TaskEntity \<Rightarrow> TaskRequest \<Rightarrow> int \<Rightarrow> bool" where
  "resetFires old data now =
     (status old = Vencida \<and> truthy (dataVencimento data)
      \<and> date_le (startOfDay now) (dueDateOf (dataVencimento data)))"

text \<open>The task an update stores: the five submitted fields, a new timestamp, a status.\<close>

definition updatedTask :: "TaskEntity \<Rightarrow> TaskRequest \<Rightarrow> int \<Rightarrow> TaskStatus \<Rightarrow> TaskEntity" where
  "updatedTask old data stamp st =
     old\<lparr>titulo := titulo data, descricao := descricao data,
         dataVencimento := dataVencimento data, horaVencimento := horaVencimento data,
         importancia := importancia data, status := st, dataAtualizacao := stamp\<rparr>"

text \<open>Sample requests, and a store built by three operations from the empty one.\<close>

definition rentRequest :: TaskRequest where
  "rentRequest =
     \<lparr>titulo = ''Pay rent'', descricao = Some ''flat'', dataVencimento = Some ''16/03/2024'',
      horaVencimento = None, importancia = Alta\<rparr>"

definition clock1 :: "nat \<Rightarrow> int" where
  "clock1 n = (if n < 3 then 1710496800000 else 1710583200000)"

definition todayRequest :: TaskRequest where
  "todayRequest =
     \<lparr>titulo = ''Pay bills'', descricao = None, dataVencimento = Some ''15/03/2024'',
      horaVencimento = None, importancia = Alta\<rparr>"

definition undatedRequest :: TaskRequest where
  "undatedRequest =
     \<lparr>titulo = ''Pay bills'', descricao = None, dataVencimento = None,
      horaVencimento = None, importancia = Alta\<rparr>"

definition overdueUndated :: world where
  "overdueUndated =
     exec (Update ''u'' undatedRequest)
       (exec CheckOverdue (exec (Create todayRequest) (emptyWorld clock1 uuids0)))"

text \<open>
  The effective due moment of a task: its due date at the given due time, or at
  23:59:59 of that day when no due time is set.
\<close>

definition effectiveDueMoment :: "TaskEntity \<Rightarrow> jsdate" where
  "effectiveDueMoment task =
     (case dueDateOf (dataVencimento task) of
        None \<Rightarrow> None
      | Some d \<Rightarrow>
          if truthy (horaVencimento task) then
            (case (piece (CHR '':'') (text_of (horaVencimento task)) 0,
                   piece (CHR '':'') (text_of (horaVencimento task)) 1) of
               (Some h, Some m) \<Rightarrow> timeClip (d + h * 3600000 + m * 60000)
             | _ \<Rightarrow> None)
          else timeClip (d + 23 * 3600000 + 59 * 60000 + 59 * 1000))"

text \<open>
  The entry the sweep records for a task, and the condition under which the sweep is to
  flip a task at the moment \<open>now\<close>.
\<close>

definition overdueEntry :: "TaskEntity \<Rightarrow> HistoryData" where
  "overdueEntry task = statusEntry (id_task task) Pendente Vencida ''Automatica''"

definition shouldFlip :: "int \<Rightarrow> TaskEntity \<Rightarrow> bool" where
  "shouldFlip now task =
     (status task = Pendente \<and> truthy (dataVencimento task)
      \<and> date_lt (effectiveDueMoment task) (Some now))"

text \<open>
  A store with tasks due yesterday, tomorrow, yesterday but completed, and today at
  09:30.
\<close>

definition sweepStore :: world where
  "sweepStore =
     storeOf [sampleTask ''t1'' Pendente (Some ''14/03/2024'') None,
              sampleTask ''t2'' Pendente (Some ''16/03/2024'') None,
              sampleTask ''t3'' Concluida (Some ''14/03/2024'') None,
              sampleTask ''t4'' Pendente (Some ''15/03/2024'') (Some ''09:30'')]"

text \<open>
  Whether a task has a due date, and the two ways a list can keep the tasks with a due
  date apart from those without: the dated ones first, or the undated ones first.
\<close>

definition hasDueDate :: "TaskEntity \<Rightarrow> bool" where
  "hasDueDate task = truthy (dataVencimento task)"

definition datedFirst :: "TaskEntity list \<Rightarrow> bool" where
  "datedFirst ts = (ts = filter hasDueDate ts @ filter (\<lambda>t. \<not> hasDueDate t) ts)"

definition undatedFirst :: "TaskEntity list \<Rightarrow> bool" where
  "undatedFirst ts = (ts = filter (\<lambda>t. \<not> hasDueDate t) ts @ filter hasDueDate ts)"

text \<open>
  The time value of a task's due date, which the sort compares; a task whose due date, if
  it has one, denotes a date; and a list whose dated tasks come in ascending, or in
  descending, order of due date.
\<close>

definition dueTime :: "TaskEntity \<Rightarrow> int" where
  "dueTime task = (case dueDateOf (dataVencimento task) of Some d \<Rightarrow> d | None \<Rightarrow> 0)"

definition validDueDate :: "TaskEntity \<Rightarrow> bool" where
  "validDueDate task = (\<not> hasDueDate task \<or> dueDateOf (dataVencimento task) \<noteq> None)"

definition dueAscending :: "TaskEntity list \<Rightarrow> bool" where
  "dueAscending ts = sorted_wrt (\<lambda>a b. dueTime a \<le> dueTime b) (filter hasDueDate ts)"

definition dueDescending :: "TaskEntity list \<Rightarrow> bool" where
  "dueDescending ts = sorted_wrt (\<lambda>a b. dueTime b \<le> dueTime a) (filter hasDueDate ts)"

text \<open>Filters that pass every task through, but for the period, with a given order.\<close>

definition listFilters :: "string \<Rightarrow> string \<Rightarrow> string \<Rightarrow> TaskListFilters" where
  "listFilters period ob dir =
     \<lparr>filterStatus = ''Todas'', filterImportance = ''Todas'', filterPeriod = period,
      orderBy = ob, orderDirection = dir, searchTerm = None\<rparr>"

definition datedAndUndated :: world where
  "datedAndUndated =
     storeOf [sampleTask ''t1'' Pendente (Some ''16/03/2024'') None,
              sampleTask ''t2'' Pendente None None,
              sampleTask ''t3'' Pendente (Some ''17/03/2024'') None]"

text \<open>Three dated tasks, not in the order of their due dates, and one without a due date.\<close>

definition mixedDates :: world where
  "mixedDates =
     storeOf [sampleTask ''t1'' Pendente (Some ''16/03/2024'') None,
              sampleTask ''t2'' Pendente None None,
              sampleTask ''t3'' Pendente (Some ''18/03/2024'') None,
              sampleTask ''t4'' Pendente (Some ''17/03/2024'') None]"

text \<open>A list in which no element without \<open>P\<close> comes before one with \<open>P\<close>.\<close>

fun segregated :: "('a \<Rightarrow> bool) \<Rightarrow> 'a list \<Rightarrow> bool" where
  "segregated P [] = True"
| "segregated P (x # xs) = (if P x then segregated P xs else (\<forall>y\<in>set xs. \<not> P y))"

text \<open>
  The moment the period \<open>Proximas ao vencimento\<close> compares: the due date at the due
  time, or at 00:00:00 of that day when no due time is set; the window of 48 hours from
  \<open>now\<close>, both ends included; and the tasks that are due soon.
\<close>

definition dueSoonMoment :: "TaskEntity \<Rightarrow> jsdate" where
  "dueSoonMoment task =
     (case dueDateOf (dataVencimento task) of
        None \<Rightarrow> None
      | Some d \<Rightarrow>
          if truthy (horaVencimento task) then
            (case (piece (CHR '':'') (text_of (horaVencimento task)) 0,
                   piece (CHR '':'') (text_of (horaVencimento task)) 1) of
               (Some h, Some m) \<Rightarrow> timeClip (d + h * 3600000 + m * 60000)
             | _ \<Rightarrow> None)
          else Some d)"

definition inWindow :: "int \<Rightarrow> jsdate \<Rightarrow> bool" where
  "inWindow now moment =
     (date_le (Some now) moment \<and> date_le moment (timeClip (now + 48 * 3600000)))"

definition dueSoon :: "int \<Rightarrow> TaskEntity \<Rightarrow> bool" where
  "dueSoon now task =
     (status task = Pendente \<and> truthy (dataVencimento task)
      \<and> inWindow now (dueSoonMoment task))"

text \<open>
  Tasks due today without a time, tomorrow, today at 18:00, in three days, and a
  completed one due tomorrow.
\<close>

definition dueSoonStore :: world where
  "dueSoonStore =
     storeOf [sampleTask ''t1'' Pendente (Some ''15/03/2024'') None,
              sampleTask ''t2'' Pendente (Some ''16/03/2024'') None,
              sampleTask ''t3'' Pendente (Some ''15/03/2024'') (Some ''18:00''),
              sampleTask ''t4'' Pendente (Some ''18/03/2024'') None,
              sampleTask ''t5'' Concluida (Some ''16/03/2024'') None]"

text \<open>
  A sequence of operations run in order, the entry a deletion records, and the store
  after one task has been created.
\<close>

definition execAll :: "operation list \<Rightarrow> world \<Rightarrow> world" where
  "execAll ops w = foldl (\<lambda>w' op. exec op w') w ops"

definition deletionEntry :: "string \<Rightarrow> HistoryData" where
  "deletionEntry i =
     \<lparr>idTarefa = i, tipoAlteracao = ''Exclusao'', campoAlterado = None,
      valorAnterior = None, valorNovo = None, origemAlteracao = ''Manual''\<rparr>"

definition createdStore :: world where
  "createdStore = exec (Create todayRequest) (emptyWorld clock0 uuids0)"

text \<open>
  The store after a second task has been created, and the entries that the history holds
  for a task identifier, in the order in which they were recorded.
\<close>

definition twoCreated :: world where
  "twoCreated = exec (Create rentRequest) createdStore"

definition entriesOf :: "string \<Rightarrow> world \<Rightarrow> HistoryEntry list" where
  "entriesOf i w = filter (\<lambda>h. idTarefa h = i) (history w)"

text \<open>
  Task identifiers are unique and were all drawn from the identifier supply: what the
  operations keep true when the supply never repeats itself.
\<close>

definition idsFresh :: "world \<Rightarrow> bool" where
  "idsFresh w =
     (distinct (map id_task (tasks w))
      \<and> (\<forall>t\<in>set (tasks w). \<exists>n<drawn w. id_task t = uuids w n))"

section \<open>Basic facts\<close>

lemma findIndex_Some:
  "findIndex P xs = Some k \<Longrightarrow> k < length xs \<and> P (xs ! k) \<and> (\<forall>j<k. \<not> P (xs ! j))"
proof (induction xs arbitrary: k)
  case Nil
  then show ?case by simp
next
  case (Cons x xs)
  show ?case
  proof (cases "P x")
    case True
    with Cons.prems show ?thesis by simp
  next
    case False
    with Cons.prems obtain k' where k': "findIndex P xs = Some k'" "k = Suc k'"
      by auto
    from Cons.IH [OF k'(1)] False k'(2) show ?thesis
      by (auto simp: nth_Cons split: nat.splits)
  qed
qed

lemma findIndex_None: "findIndex P xs = None \<longleftrightarrow> (\<forall>x\<in>set xs. \<not> P x)"
  by (induction xs) auto

lemma recordHistory_eq:
  "recordHistory d w =
     w\<lparr>history := history w @
          [\<lparr>idTarefa = idTarefa d, tipoAlteracao = tipoAlteracao d,
            campoAlterado = campoAlterado d, valorAnterior = valorAnterior d,
            valorNovo = valorNovo d, origemAlteracao = origemAlteracao d,
            id_entry = uuids w (drawn w), dataAlteracao = clock w (ticks w)\<rparr>],
        ticks := Suc (ticks w), drawn := Suc (drawn w)\<rparr>"
  by (simp add: recordHistory_def uuidv4_def newDate_def)

text \<open>The dates and times of the sample tasks.\<close>

lemma sample_dates:
  "parseDueDate ''14/03/2024'' = Some 1710374400000"
  "parseDueDate ''15/03/2024'' = Some 1710460800000"
  "parseDueDate ''16/03/2024'' = Some 1710547200000"
  "parseDueDate ''17/03/2024'' = Some 1710633600000"
  "parseDueDate ''18/03/2024'' = Some 1710720000000"
  by (simp_all add: parseDueDate_def piece_def Number_js_def digitValue_def Date_ymd_def
      makeDay_def daysFromCivil_def msPerDay_def timeClip_def)

lemma sample_times:
  "piece (CHR '':'') ''08:00'' 0 = Some 8" "piece (CHR '':'') ''08:00'' (Suc 0) = Some 0"
  "piece (CHR '':'') ''09:30'' 0 = Some 9" "piece (CHR '':'') ''09:30'' (Suc 0) = Some 30"
  "piece (CHR '':'') ''18:00'' 0 = Some 18" "piece (CHR '':'') ''18:00'' (Suc 0) = Some 0"
  by (simp_all add: piece_def Number_js_def digitValue_def)

lemmas sample_defs =
  dueDateOf_def sample_dates sample_times applyDueTime_def setHours_def secFromTime_def
  msFromTime_def msPerDay_def timeClip_def startOfDay_def

section \<open>Explicit status changes\<close>

lemma taskUpdateStatus_found:
  assumes "findIndex (\<lambda>t. id_task t = i) (tasks w) = Some k"
    and "\<not> (status (tasks w ! k) = Vencida \<and> newStatus = Pendente)"
  shows "taskUpdateStatus i newStatus w =
     (Inr (Some ((tasks w ! k)\<lparr>status := newStatus, dataAtualizacao := clock w (ticks w)\<rparr>)),
      w\<lparr>tasks := (tasks w)[k := (tasks w ! k)
                    \<lparr>status := newStatus, dataAtualizacao := clock w (ticks w)\<rparr>],
        history := history w @
          [\<lparr>idTarefa = i, tipoAlteracao = ''Alteracao de Status'',
            campoAlterado = Some ''status'',
            valorAnterior = Some (statusValue (status (tasks w ! k))),
            valorNovo = Some (statusValue newStatus), origemAlteracao = ''Manual'',
            id_entry = uuids w (drawn w), dataAlteracao = clock w (Suc (ticks w))\<rparr>],
        ticks := Suc (Suc (ticks w)), drawn := Suc (drawn w)\<rparr>)"
proof -
  from findIndex_Some [OF assms(1)] have k: "k < length (tasks w)" by simp
  show ?thesis
    using assms k by (simp add: taskUpdateStatus_def Let_def newDate_def recordHistory_eq)
qed

text \<open>
  C3. When the task found for the identifier is \<open>Vencida\<close>, \<open>taskUpdateStatus\<close> with
  the new status \<open>Pendente\<close> throws \<open>alteracaoNaoPermitida\<close> and leaves the whole world,
  tasks and history included, as it was. From \<open>Pendente\<close> to \<open>Concluida\<close> and from
  \<open>Concluida\<close> to \<open>Pendente\<close> it returns the task with the new status, stores it in
  place, and appends exactly one entry \<open>Alteracao de Status\<close> with origin \<open>Manual\<close>
  that carries the old and the new status.
\<close>

theorem taskUpdateStatus_transitions:
  assumes "findIndex (\<lambda>t. id_task t = i) (tasks w) = Some k"
  shows "(status (tasks w ! k) = Vencida \<longrightarrow>
            taskUpdateStatus i Pendente w = (Inl alteracaoNaoPermitida, w))
       \<and> (status (tasks w ! k) = Pendente \<and> newStatus = Concluida
            \<or> status (tasks w ! k) = Concluida \<and> newStatus = Pendente \<longrightarrow>
          fst (taskUpdateStatus i newStatus w) =
            Inr (Some ((tasks w ! k)
                   \<lparr>status := newStatus, dataAtualizacao := clock w (ticks w)\<rparr>))
          \<and> tasks (snd (taskUpdateStatus i newStatus w)) =
              (tasks w)[k := (tasks w ! k)
                 \<lparr>status := newStatus, dataAtualizacao := clock w (ticks w)\<rparr>]
          \<and> history (snd (taskUpdateStatus i newStatus w)) =
              history w @
                [\<lparr>idTarefa = i, tipoAlteracao = ''Alteracao de Status'',
                  campoAlterado = Some ''status'',
                  valorAnterior = Some (statusValue (status (tasks w ! k))),
                  valorNovo = Some (statusValue newStatus), origemAlteracao = ''Manual'',
                  id_entry = uuids w (drawn w), dataAlteracao = clock w (Suc (ticks w))\<rparr>])"
proof (intro conjI impI)
  assume "status (tasks w ! k) = Vencida"
  with assms show "taskUpdateStatus i Pendente w = (Inl alteracaoNaoPermitida, w)"
    by (simp add: taskUpdateStatus_def)
next
  assume a: "status (tasks w ! k) = Pendente \<and> newStatus = Concluida
            \<or> status (tasks w ! k) = Concluida \<and> newStatus = Pendente"
  then have ok: "\<not> (status (tasks w ! k) = Vencida \<and> newStatus = Pendente)" by auto
  note eq = taskUpdateStatus_found [OF assms ok]
  show "fst (taskUpdateStatus i newStatus w) =
          Inr (Some ((tasks w ! k)
                 \<lparr>status := newStatus, dataAtualizacao := clock w (ticks w)\<rparr>))"
    by (simp add: eq)
  show "tasks (snd (taskUpdateStatus i newStatus w)) =
          (tasks w)[k := (tasks w ! k)
             \<lparr>status := newStatus, dataAtualizacao := clock w (ticks w)\<rparr>]"
    by (simp add: eq)
  show "history (snd (taskUpdateStatus i newStatus w)) =
          history w @
            [\<lparr>idTarefa = i, tipoAlteracao = ''Alteracao de Status'',
              campoAlterado = Some ''status'',
              valorAnterior = Some (statusValue (status (tasks w ! k))),
              valorNovo = Some (statusValue newStatus), origemAlteracao = ''Manual'',
              id_entry = uuids w (drawn w), dataAlteracao = clock w (Suc (ticks w))\<rparr>]"
    by (simp add: eq)
qed

theorem taskUpdateStatus_transitions_witness:
  "findIndex (\<lambda>t. id_task t = ''t1'')
       (tasks (storeOf [sampleTask ''t1'' Vencida (Some ''14/03/2024'') None])) = Some 0
   \<and> status (tasks (storeOf [sampleTask ''t1'' Vencida (Some ''14/03/2024'') None]) ! 0) = Vencida
   \<and> taskUpdateStatus ''t1'' Pendente
         (storeOf [sampleTask ''t1'' Vencida (Some ''14/03/2024'') None])
       = (Inl alteracaoNaoPermitida,
          storeOf [sampleTask ''t1'' Vencida (Some ''14/03/2024'') None])
   \<and> findIndex (\<lambda>t. id_task t = ''t1'')
       (tasks (storeOf [sampleTask ''t1'' Pendente None None])) = Some 0
   \<and> status (tasks (storeOf [sampleTask ''t1'' Pendente None None]) ! 0) = Pendente
   \<and> history (snd (taskUpdateStatus ''t1'' Concluida
                     (storeOf [sampleTask ''t1'' Pendente None None]))) =
       [\<lparr>idTarefa = ''t1'', tipoAlteracao = ''Alteracao de Status'',
         campoAlterado = Some ''status'', valorAnterior = Some ''Pendente'',
         valorNovo = Some ''Concluida'', origemAlteracao = ''Manual'',
         id_entry = ''u'', dataAlteracao = 1710496800001\<rparr>]
   \<and> status (tasks (storeOf [sampleTask ''t1'' Concluida None None]) ! 0) = Concluida
   \<and> history (snd (taskUpdateStatus ''t1'' Pendente
                     (storeOf [sampleTask ''t1'' Concluida None None]))) =
       [\<lparr>idTarefa = ''t1'', tipoAlteracao = ''Alteracao de Status'',
         campoAlterado = Some ''status'', valorAnterior = Some ''Concluida'',
         valorNovo = Some ''Pendente'', origemAlteracao = ''Manual'',
         id_entry = ''u'', dataAlteracao = 1710496800001\<rparr>]"
  using
    taskUpdateStatus_transitions
      [of "''t1''" "storeOf [sampleTask ''t1'' Vencida (Some ''14/03/2024'') None]" 0 Pendente]
    taskUpdateStatus_transitions
      [of "''t1''" "storeOf [sampleTask ''t1'' Pendente None None]" 0 Concluida]
    taskUpdateStatus_transitions
      [of "''t1''" "storeOf [sampleTask ''t1'' Concluida None None]" 0 Pendente]
  by (simp add: storeOf_def sampleTask_def clock0_def uuids0_def)

section \<open>Updates\<close>

text \<open>
  C9. For an identifier that no stored task has, \<open>taskUpdate\<close> returns the absent
  result without throwing and leaves the world as it was, whatever the payload: the
  lookup comes before the validation, so an invalid payload yields the absent result too.
\<close>

theorem taskUpdate_absent:
  "findIndex (\<lambda>t. id_task t = i) (tasks w) = None \<Longrightarrow> taskUpdate i data w = (Inr None, w)"
  by (simp add: taskUpdate_def)

theorem taskUpdate_absent_witness:
  "findIndex (\<lambda>t. id_task t = ''t9'')
      (tasks (storeOf [sampleTask ''t1'' Pendente None None])) = None
   \<and> validation untitled = Some tituloObrigatorio
   \<and> taskUpdate ''t9'' untitled (storeOf [sampleTask ''t1'' Pendente None None])
      = (Inr None, storeOf [sampleTask ''t1'' Pendente None None])"
  using taskUpdate_absent [of "''t9''" "storeOf [sampleTask ''t1'' Pendente None None]" untitled]
  by (simp add: storeOf_def sampleTask_def validation_def untitled_def)

lemma setHours_midnight:
  "setHours (Some n) (Some 0) (Some 0) (Some 0) (Some 0) = startOfDay n"
  by (simp add: setHours_def startOfDay_def minus_mod_eq_div_mult)

lemma foldl_recordChange:
  "tasks (foldl (recordChange i) w cs) = tasks w \<and>
   (\<exists>new. history (foldl (recordChange i) w cs) = history w @ new
      \<and> map HistoryData.truncate new =
          map (\<lambda>c. \<lparr>idTarefa = i, tipoAlteracao = ''Edicao'', campoAlterado = Some (field c),
                    valorAnterior = Some (String_js (oldValue c)),
                    valorNovo = Some (String_js (newValue c)),
                    origemAlteracao = ''Manual''\<rparr>) cs)"
proof (induction cs arbitrary: w)
  case Nil
  then show ?case by simp
next
  case (Cons c cs)
  let ?w1 = "recordChange i w c"
  from Cons.IH [of ?w1] obtain new where
    t: "tasks (foldl (recordChange i) ?w1 cs) = tasks ?w1" and
    h: "history (foldl (recordChange i) ?w1 cs) = history ?w1 @ new" and
    m: "map HistoryData.truncate new =
          map (\<lambda>c. \<lparr>idTarefa = i, tipoAlteracao = ''Edicao'', campoAlterado = Some (field c),
                    valorAnterior = Some (String_js (oldValue c)),
                    valorNovo = Some (String_js (newValue c)),
                    origemAlteracao = ''Manual''\<rparr>) cs"
    by blast
  have w1t: "tasks ?w1 = tasks w" by (simp add: recordChange_def recordHistory_eq)
  obtain e where w1h: "history ?w1 = history w @ [e]"
    and e: "HistoryData.truncate e =
       \<lparr>idTarefa = i, tipoAlteracao = ''Edicao'', campoAlterado = Some (field c),
                    valorAnterior = Some (String_js (oldValue c)),
                    valorNovo = Some (String_js (newValue c)),
                    origemAlteracao = ''Manual''\<rparr>"
    by (simp add: recordChange_def recordHistory_eq HistoryData.truncate_def)
  show ?case
  proof (intro conjI exI [of _ "e # new"])
    show "tasks (foldl (recordChange i) w (c # cs)) = tasks w"
      using t w1t by simp
    show "history (foldl (recordChange i) w (c # cs)) = history w @ e # new"
      using h w1h by simp
    show "map HistoryData.truncate (e # new) =
      map (\<lambda>c. \<lparr>idTarefa = i, tipoAlteracao = ''Edicao'', campoAlterado = Some (field c),
                    valorAnterior = Some (String_js (oldValue c)),
                    valorNovo = Some (String_js (newValue c)),
                    origemAlteracao = ''Manual''\<rparr>) (c # cs)"
      using m e by simp
  qed
qed

lemma importanceValue_inj: "importanceValue a = importanceValue b \<longleftrightarrow> a = b"
  by (cases a; cases b) simp_all

lemma changedFields_editEntries:
  "map (\<lambda>c. \<lparr>idTarefa = i, tipoAlteracao = ''Edicao'', campoAlterado = Some (field c),
             valorAnterior = Some (String_js (oldValue c)),
             valorNovo = Some (String_js (newValue c)),
             origemAlteracao = ''Manual''\<rparr>) (changedFields old data)
   = editEntries i (TaskRequest.truncate old) data"
  by (simp add: changedFields_def editEntries_def trackedFields_def differs_def editEntry_def
      TaskRequest.truncate_def importanceValue_inj)


lemma truncate_tipo [simp]: "tipoAlteracao (HistoryData.truncate e) = tipoAlteracao e"
  by (simp add: HistoryData.truncate_def)

lemma resetOverdue_effect:
  assumes "k < length (tasks w)"
  shows "tasks (resetOverdue i k data w) =
           (if resetFires (tasks w ! k) data (clock w (ticks w))
            then (tasks w)[k := (tasks w ! k)\<lparr>status := Pendente\<rparr>] else tasks w)
       \<and> (\<exists>auto. history (resetOverdue i k data w) = history w @ auto
             \<and> map HistoryData.truncate auto =
                 (if resetFires (tasks w ! k) data (clock w (ticks w))
                  then [statusEntry i Vencida Pendente ''Automatica''] else []))"
proof (cases "resetFires (tasks w ! k) data (clock w (ticks w))")
  case True
  then show ?thesis
    by (simp add: resetOverdue_def resetFires_def Let_def newDate_def setHours_midnight
        recordHistory_eq statusEntry_def HistoryData.truncate_def)
next
  case False
  then show ?thesis
    by (auto simp add: resetOverdue_def resetFires_def Let_def newDate_def setHours_midnight)
qed

lemma updatedTask_eq:
  "old\<lparr>titulo := titulo data, descricao := descricao data,
        dataVencimento := dataVencimento data, horaVencimento := horaVencimento data,
        importancia := importancia data, dataAtualizacao := stamp\<rparr>
     = updatedTask old data stamp (status old)"
  "(old\<lparr>titulo := titulo data, descricao := descricao data,
        dataVencimento := dataVencimento data, horaVencimento := horaVencimento data,
        importancia := importancia data, dataAtualizacao := stamp\<rparr>)\<lparr>status := st\<rparr>
     = updatedTask old data stamp st"
  by (cases old; simp add: updatedTask_def)+

lemma updatedTask_status:
  "(updatedTask old data stamp st)\<lparr>status := st'\<rparr> = updatedTask old data stamp st'"
  by (simp add: updatedTask_def)

lemma taskUpdate_found:
  assumes found: "findIndex (\<lambda>t. id_task t = i) (tasks w) = Some k"
    and valid: "validation data = None"
  shows "fst (taskUpdate i data w) =
           Inr (Some (updatedTask (tasks w ! k) data (clock w (ticks w))
                 (if resetFires (tasks w ! k) data (clock w (Suc (ticks w)))
                  then Pendente else status (tasks w ! k))))"
    and "tasks (snd (taskUpdate i data w)) =
           (tasks w)[k := updatedTask (tasks w ! k) data (clock w (ticks w))
                 (if resetFires (tasks w ! k) data (clock w (Suc (ticks w)))
                  then Pendente else status (tasks w ! k))]"
    and "\<exists>auto new. history (snd (taskUpdate i data w)) = history w @ auto @ new
           \<and> map HistoryData.truncate auto =
                 (if resetFires (tasks w ! k) data (clock w (Suc (ticks w)))
                  then [statusEntry i Vencida Pendente ''Automatica''] else [])
           \<and> map HistoryData.truncate new = editEntries i (TaskRequest.truncate (tasks w ! k)) data"
proof -
  let ?old = "tasks w ! k"
  let ?upd = "?old\<lparr>titulo := titulo data, descricao := descricao data,
                   dataVencimento := dataVencimento data,
                   horaVencimento := horaVencimento data,
                   importancia := importancia data,
                   dataAtualizacao := clock w (ticks w)\<rparr>"
  let ?w2 = "w\<lparr>ticks := Suc (ticks w), tasks := (tasks w)[k := ?upd]\<rparr>"
  let ?w3 = "resetOverdue i k data ?w2"
  let ?w4 = "foldl (recordChange i) ?w3 (changedFields ?old data)"
  let ?fires = "resetFires ?old data (clock w (Suc (ticks w)))"
  from findIndex_Some [OF found] have k: "k < length (tasks w)" by simp
  have run: "taskUpdate i data w = (Inr (Some (tasks ?w4 ! k)), ?w4)"
    using found valid k by (simp add: taskUpdate_def Let_def newDate_def)
  have fires2: "resetFires (tasks ?w2 ! k) data (clock ?w2 (ticks ?w2)) = ?fires"
    using k by (simp add: resetFires_def)
  from resetOverdue_effect [of k ?w2 i data] k fires2
  obtain auto where
    t3: "tasks ?w3 = (if ?fires then (tasks ?w2)[k := (tasks ?w2 ! k)\<lparr>status := Pendente\<rparr>]
                      else tasks ?w2)" and
    h3: "history ?w3 = history ?w2 @ auto" and
    a3: "map HistoryData.truncate auto =
           (if ?fires then [statusEntry i Vencida Pendente ''Automatica''] else [])"
    by auto
  from foldl_recordChange [of i ?w3 "changedFields ?old data"]
  obtain new where
    t4: "tasks ?w4 = tasks ?w3" and
    h4: "history ?w4 = history ?w3 @ new" and
    n4: "map HistoryData.truncate new = editEntries i (TaskRequest.truncate ?old) data"
    unfolding changedFields_editEntries by blast
  have tasks4: "tasks ?w4 = (tasks w)[k := updatedTask ?old data (clock w (ticks w))
                 (if ?fires then Pendente else status ?old)]"
    using t4 t3 k by (simp add: updatedTask_eq updatedTask_status)
  show "tasks (snd (taskUpdate i data w)) =
           (tasks w)[k := updatedTask ?old data (clock w (ticks w))
                 (if ?fires then Pendente else status ?old)]"
    using run tasks4 by simp
  show "fst (taskUpdate i data w) =
           Inr (Some (updatedTask ?old data (clock w (ticks w))
                 (if ?fires then Pendente else status ?old)))"
    using run tasks4 k by simp
  have hist: "history (snd (taskUpdate i data w)) = history w @ auto @ new"
    using run h4 h3 by simp
  show "\<exists>auto new. history (snd (taskUpdate i data w)) = history w @ auto @ new
           \<and> map HistoryData.truncate auto =
                 (if ?fires then [statusEntry i Vencida Pendente ''Automatica''] else [])
           \<and> map HistoryData.truncate new = editEntries i (TaskRequest.truncate ?old) data"
    by (rule exI [of _ auto], rule exI [of _ new]) (simp only: hist a3 n4 simp_thms)
qed

lemma kind_of_truncate:
  assumes "map HistoryData.truncate xs = ys" and "\<forall>d\<in>set ys. tipoAlteracao d = K"
  shows "\<forall>e\<in>set xs. tipoAlteracao e = K"
proof
  fix e assume "e \<in> set xs"
  then have "HistoryData.truncate e \<in> set ys" using assms(1) by auto
  with assms(2) show "tipoAlteracao e = K" by auto
qed

lemma editEntries_kind: "\<forall>d\<in>set (editEntries i old new). tipoAlteracao d = ''Edicao''"
  by (auto simp: editEntries_def editEntry_def)

lemma taskUpdate_history:
  assumes found: "findIndex (\<lambda>t. id_task t = i) (tasks w) = Some k"
    and valid: "validation data = None"
  shows "take (length (history w)) (history (snd (taskUpdate i data w))) = history w"
    and "map HistoryData.truncate (filter isEdit (appended w (snd (taskUpdate i data w))))
           = editEntries i (TaskRequest.truncate (tasks w ! k)) data"
    and "map HistoryData.truncate (filter isStatusChange (appended w (snd (taskUpdate i data w))))
           = (if resetFires (tasks w ! k) data (clock w (Suc (ticks w)))
              then [statusEntry i Vencida Pendente ''Automatica''] else [])"
    and "map HistoryData.truncate (appended w (snd (taskUpdate i data w)))
           = (if resetFires (tasks w ! k) data (clock w (Suc (ticks w)))
              then [statusEntry i Vencida Pendente ''Automatica''] else [])
             @ editEntries i (TaskRequest.truncate (tasks w ! k)) data"
proof -
  let ?w' = "snd (taskUpdate i data w)"
  let ?auto = "if resetFires (tasks w ! k) data (clock w (Suc (ticks w)))
              then [statusEntry i Vencida Pendente ''Automatica''] else []"
  from taskUpdate_found(3) [OF found valid] obtain auto new where
    h: "history ?w' = history w @ auto @ new" and
    a: "map HistoryData.truncate auto = ?auto" and
    n: "map HistoryData.truncate new = editEntries i (TaskRequest.truncate (tasks w ! k)) data"
    by blast
  have app: "appended w ?w' = auto @ new"
    by (simp add: appended_def h)
  have "\<forall>d\<in>set ?auto. tipoAlteracao d = ''Alteracao de Status''"
    by (simp add: statusEntry_def)
  from kind_of_truncate [OF a this]
  have ka: "\<forall>e\<in>set auto. tipoAlteracao e = ''Alteracao de Status''" .
  from kind_of_truncate [OF n editEntries_kind]
  have kn: "\<forall>e\<in>set new. tipoAlteracao e = ''Edicao''" .
  have fa: "filter isEdit auto = []" "filter isStatusChange auto = auto"
    using ka by (auto simp: isEdit_def isStatusChange_def filter_empty_conv filter_id_conv)
  have fn: "filter isEdit new = new" "filter isStatusChange new = []"
    using kn by (auto simp: isEdit_def isStatusChange_def filter_empty_conv filter_id_conv)
  show "take (length (history w)) (history ?w') = history w"
    by (simp add: h)
  show "map HistoryData.truncate (filter isEdit (appended w ?w'))
           = editEntries i (TaskRequest.truncate (tasks w ! k)) data"
    by (simp add: app fa fn n)
  show "map HistoryData.truncate (filter isStatusChange (appended w ?w')) = ?auto"
    by (simp only: app filter_append fa fn append_Nil2 a)
  show "map HistoryData.truncate (appended w ?w')
           = ?auto @ editEntries i (TaskRequest.truncate (tasks w ! k)) data"
    by (simp only: app map_append a n)
qed

text \<open>
  C1. A successful update of an existing task keeps the history it found and appends,
  for each of the five tracked fields whose old and new values differ, exactly one entry
  \<open>Edicao\<close> with origin \<open>Manual\<close> and the two values as text, and none for a field
  that did not change: the \<open>Edicao\<close> entries appended are \<open>editEntries\<close>, their number
  is the number of differing fields, and an update with the task's own values appends
  none.
\<close>

theorem taskUpdate_edit_entries:
  assumes "findIndex (\<lambda>t. id_task t = i) (tasks w) = Some k"
    and "validation data = None"
  shows "take (length (history w)) (history (snd (taskUpdate i data w))) = history w
     \<and> map HistoryData.truncate (filter isEdit (appended w (snd (taskUpdate i data w))))
         = editEntries i (TaskRequest.truncate (tasks w ! k)) data
     \<and> length (filter isEdit (appended w (snd (taskUpdate i data w))))
         = length (filter (differs (TaskRequest.truncate (tasks w ! k)) data) trackedFields)
     \<and> (TaskRequest.truncate (tasks w ! k) = data \<longrightarrow>
          filter isEdit (appended w (snd (taskUpdate i data w))) = [])"
proof -
  note h = taskUpdate_history(1,2) [OF assms]
  have len: "length (filter isEdit (appended w (snd (taskUpdate i data w))))
         = length (editEntries i (TaskRequest.truncate (tasks w ! k)) data)"
    using arg_cong [OF h(2), of length] by simp
  have same: "editEntries i data data = []"
    by (simp add: editEntries_def differs_def)
  show ?thesis
  proof (intro conjI impI)
    show "take (length (history w)) (history (snd (taskUpdate i data w))) = history w"
      by (rule h(1))
    show "map HistoryData.truncate (filter isEdit (appended w (snd (taskUpdate i data w))))
         = editEntries i (TaskRequest.truncate (tasks w ! k)) data"
      by (rule h(2))
    show "length (filter isEdit (appended w (snd (taskUpdate i data w))))
         = length (filter (differs (TaskRequest.truncate (tasks w ! k)) data) trackedFields)"
      using len by (simp add: editEntries_def)
    assume "TaskRequest.truncate (tasks w ! k) = data"
    with len same show "filter isEdit (appended w (snd (taskUpdate i data w))) = []"
      by simp
  qed
qed

theorem taskUpdate_edit_entries_witness:
  "findIndex (\<lambda>t. id_task t = ''t1'')
     (tasks (storeOf [sampleTask ''t1'' Pendente (Some ''16/03/2024'') None])) = Some 0
   \<and> validation rentRequest = None
   \<and> map HistoryData.truncate (filter isEdit
        (appended (storeOf [sampleTask ''t1'' Pendente (Some ''16/03/2024'') None])
           (snd (taskUpdate ''t1'' rentRequest
                  (storeOf [sampleTask ''t1'' Pendente (Some ''16/03/2024'') None])))))
       = [\<lparr>idTarefa = ''t1'', tipoAlteracao = ''Edicao'', campoAlterado = Some ''titulo'',
           valorAnterior = Some ''Pay bills'', valorNovo = Some ''Pay rent'',
           origemAlteracao = ''Manual''\<rparr>,
          \<lparr>idTarefa = ''t1'', tipoAlteracao = ''Edicao'', campoAlterado = Some ''descricao'',
           valorAnterior = Some ''null'', valorNovo = Some ''flat'',
           origemAlteracao = ''Manual''\<rparr>]
   \<and> validation (TaskRequest.truncate (sampleTask ''t1'' Pendente (Some ''16/03/2024'') None)) = None
   \<and> filter isEdit
        (appended (storeOf [sampleTask ''t1'' Pendente (Some ''16/03/2024'') None])
           (snd (taskUpdate ''t1''
                  (TaskRequest.truncate (sampleTask ''t1'' Pendente (Some ''16/03/2024'') None))
                  (storeOf [sampleTask ''t1'' Pendente (Some ''16/03/2024'') None])))) = []"
  using
    taskUpdate_edit_entries
      [of "''t1''" "storeOf [sampleTask ''t1'' Pendente (Some ''16/03/2024'') None]" 0 rentRequest]
    taskUpdate_edit_entries
      [of "''t1''" "storeOf [sampleTask ''t1'' Pendente (Some ''16/03/2024'') None]" 0
          "TaskRequest.truncate (sampleTask ''t1'' Pendente (Some ''16/03/2024'') None)"]
  by (simp add: storeOf_def sampleTask_def rentRequest_def validation_def trim_def isSpace_def
      editEntries_def editEntry_def differs_def trackedFields_def TaskRequest.truncate_def)

lemmas date_defs =
  dueDateOf_def parseDueDate_def piece_def Number_js_def digitValue_def Date_ymd_def
  makeDay_def daysFromCivil_def msPerDay_def timeClip_def setHours_def msFromTime_def
  secFromTime_def applyDueTime_def startOfDay_def

lemma overdueUndated_tasks:
  "tasks overdueUndated =
     [\<lparr>titulo = ''Pay bills'', descricao = None, dataVencimento = None,
       horaVencimento = None, importancia = Alta, id_task = ''u'', status = Vencida,
       dataCriacao = 1710496800000, dataAtualizacao = 1710583200000\<rparr>]"
  by (simp add: overdueUndated_def emptyWorld_def clock1_def uuids0_def todayRequest_def
      undatedRequest_def taskCreate_def validation_def trim_def isSpace_def uuidv4_def
      newDate_def recordHistory_eq taskCheckOverdue_def isOverdue_def
      dueDate_checkOverdue_def date_defs taskUpdate_def resetOverdue_def changedFields_def
      recordChange_def Let_def)

lemma overdueUndated_reachable: "reachable overdueUndated"
  unfolding overdueUndated_def by (intro reachable.step reachable.start)

text \<open>
  C4. A successful update of a task that is \<open>Vencida\<close>, with a due date that is today
  or later (tomorrow, say), returns and stores the task as \<open>Pendente\<close> and appends one
  entry \<open>Alteracao de Status\<close> with origin \<open>Automatica\<close>, from \<open>Vencida\<close> to
  \<open>Pendente\<close>, followed by the \<open>Edicao\<close> entries of the changed fields, the one for
  the due date among them when the due date changed.
\<close>

theorem taskUpdate_overdue_to_pending:
  assumes "findIndex (\<lambda>t. id_task t = i) (tasks w) = Some k"
    and "validation data = None"
    and "status (tasks w ! k) = Vencida"
    and "truthy (dataVencimento data)"
    and "date_le (startOfDay (clock w (Suc (ticks w)))) (dueDateOf (dataVencimento data))"
  shows "fst (taskUpdate i data w) =
           Inr (Some (updatedTask (tasks w ! k) data (clock w (ticks w)) Pendente))
     \<and> tasks (snd (taskUpdate i data w)) =
           (tasks w)[k := updatedTask (tasks w ! k) data (clock w (ticks w)) Pendente]
     \<and> status (tasks (snd (taskUpdate i data w)) ! k) = Pendente
     \<and> map HistoryData.truncate (appended w (snd (taskUpdate i data w))) =
           statusEntry i Vencida Pendente ''Automatica''
             # editEntries i (TaskRequest.truncate (tasks w ! k)) data
     \<and> map HistoryData.truncate (filter isStatusChange (appended w (snd (taskUpdate i data w))))
           = [statusEntry i Vencida Pendente ''Automatica'']
     \<and> (dataVencimento (tasks w ! k) \<noteq> dataVencimento data \<longrightarrow>
           editEntry i (TaskRequest.truncate (tasks w ! k)) data
               (''dataVencimento'', dataVencimento)
             \<in> set (editEntries i (TaskRequest.truncate (tasks w ! k)) data))"
proof -
  have fires: "resetFires (tasks w ! k) data (clock w (Suc (ticks w)))"
    using assms(3-5) by (simp add: resetFires_def)
  from findIndex_Some [OF assms(1)] have k: "k < length (tasks w)" by simp
  note r = taskUpdate_found(1,2) [OF assms(1,2)]
  note h = taskUpdate_history(3,4) [OF assms(1,2)]
  show ?thesis
  proof (intro conjI impI)
    show "fst (taskUpdate i data w) =
           Inr (Some (updatedTask (tasks w ! k) data (clock w (ticks w)) Pendente))"
      using r(1) fires by simp
    show "tasks (snd (taskUpdate i data w)) =
           (tasks w)[k := updatedTask (tasks w ! k) data (clock w (ticks w)) Pendente]"
      using r(2) fires by simp
    show "status (tasks (snd (taskUpdate i data w)) ! k) = Pendente"
      using r(2) fires k by (simp add: updatedTask_def)
    show "map HistoryData.truncate (appended w (snd (taskUpdate i data w))) =
           statusEntry i Vencida Pendente ''Automatica''
             # editEntries i (TaskRequest.truncate (tasks w ! k)) data"
      using h(2) fires by simp
    show "map HistoryData.truncate
            (filter isStatusChange (appended w (snd (taskUpdate i data w))))
           = [statusEntry i Vencida Pendente ''Automatica'']"
      using h(1) fires by simp
    assume "dataVencimento (tasks w ! k) \<noteq> dataVencimento data"
    then show "editEntry i (TaskRequest.truncate (tasks w ! k)) data
               (''dataVencimento'', dataVencimento)
             \<in> set (editEntries i (TaskRequest.truncate (tasks w ! k)) data)"
      by (simp add: editEntries_def trackedFields_def differs_def TaskRequest.truncate_def)
  qed
qed

theorem taskUpdate_overdue_to_pending_witness:
  "findIndex (\<lambda>t. id_task t = ''t1'')
     (tasks (storeOf [sampleTask ''t1'' Vencida (Some ''14/03/2024'') None])) = Some 0
   \<and> validation rentRequest = None
   \<and> status (tasks (storeOf [sampleTask ''t1'' Vencida (Some ''14/03/2024'') None]) ! 0) = Vencida
   \<and> dataVencimento rentRequest = Some ''16/03/2024''
   \<and> startOfDay (clock (storeOf [sampleTask ''t1'' Vencida (Some ''14/03/2024'') None]) (Suc 0))
       = Some 1710460800000
   \<and> dueDateOf (dataVencimento rentRequest) = Some 1710547200000
   \<and> status (tasks (snd (taskUpdate ''t1'' rentRequest
         (storeOf [sampleTask ''t1'' Vencida (Some ''14/03/2024'') None]))) ! 0) = Pendente
   \<and> map HistoryData.truncate
        (appended (storeOf [sampleTask ''t1'' Vencida (Some ''14/03/2024'') None])
           (snd (taskUpdate ''t1'' rentRequest
                  (storeOf [sampleTask ''t1'' Vencida (Some ''14/03/2024'') None]))))
       = [\<lparr>idTarefa = ''t1'', tipoAlteracao = ''Alteracao de Status'',
           campoAlterado = Some ''status'', valorAnterior = Some ''Vencida'',
           valorNovo = Some ''Pendente'', origemAlteracao = ''Automatica''\<rparr>,
          \<lparr>idTarefa = ''t1'', tipoAlteracao = ''Edicao'', campoAlterado = Some ''titulo'',
           valorAnterior = Some ''Pay bills'', valorNovo = Some ''Pay rent'',
           origemAlteracao = ''Manual''\<rparr>,
          \<lparr>idTarefa = ''t1'', tipoAlteracao = ''Edicao'', campoAlterado = Some ''descricao'',
           valorAnterior = Some ''null'', valorNovo = Some ''flat'',
           origemAlteracao = ''Manual''\<rparr>,
          \<lparr>idTarefa = ''t1'', tipoAlteracao = ''Edicao'',
           campoAlterado = Some ''dataVencimento'',
           valorAnterior = Some ''14/03/2024'', valorNovo = Some ''16/03/2024'',
           origemAlteracao = ''Manual''\<rparr>]"
  using taskUpdate_overdue_to_pending
      [of "''t1''" "storeOf [sampleTask ''t1'' Vencida (Some ''14/03/2024'') None]" 0 rentRequest]
  by (simp add: storeOf_def sampleTask_def rentRequest_def validation_def trim_def isSpace_def
      clock0_def date_defs statusEntry_def updatedTask_def
      editEntries_def editEntry_def differs_def trackedFields_def TaskRequest.truncate_def)

text \<open>
  C10. In a successful update the reset to \<open>Pendente\<close>, with its automatic history
  entry, happens exactly when the stored task is \<open>Vencida\<close>, the payload has a due date,
  and that date is today or later; the previous due date plays no part. Without the
  reset the status stays as it was, and no status entry is written. An overdue task
  updated without a due date stays \<open>Vencida\<close> and has no due date afterwards, and such
  a task is in a store that the operations reach from the empty one.
\<close>

theorem taskUpdate_reset_condition:
  assumes "findIndex (\<lambda>t. id_task t = i) (tasks w) = Some k"
    and "validation data = None"
  shows "status (tasks (snd (taskUpdate i data w)) ! k) =
           (if resetFires (tasks w ! k) data (clock w (Suc (ticks w)))
            then Pendente else status (tasks w ! k))
     \<and> map HistoryData.truncate (filter isStatusChange (appended w (snd (taskUpdate i data w))))
         = (if resetFires (tasks w ! k) data (clock w (Suc (ticks w)))
            then [statusEntry i Vencida Pendente ''Automatica''] else [])
     \<and> (status (tasks w ! k) = Vencida \<and> dataVencimento data = None \<longrightarrow>
          status (tasks (snd (taskUpdate i data w)) ! k) = Vencida
          \<and> dataVencimento (tasks (snd (taskUpdate i data w)) ! k) = None)
     \<and> (\<exists>w0. reachable w0
           \<and> (\<exists>t\<in>set (tasks w0). status t = Vencida \<and> dataVencimento t = None))"
proof -
  from findIndex_Some [OF assms(1)] have k: "k < length (tasks w)" by simp
  note r = taskUpdate_found(2) [OF assms]
  note h = taskUpdate_history(3) [OF assms]
  have st: "status (tasks (snd (taskUpdate i data w)) ! k) =
           (if resetFires (tasks w ! k) data (clock w (Suc (ticks w)))
            then Pendente else status (tasks w ! k))"
    using r k by (simp add: updatedTask_def)
  have dv: "dataVencimento (tasks (snd (taskUpdate i data w)) ! k) = dataVencimento data"
    using r k by (simp add: updatedTask_def)
  have reach: "\<exists>w0. reachable w0
           \<and> (\<exists>t\<in>set (tasks w0). status t = Vencida \<and> dataVencimento t = None)"
    by (rule exI [of _ overdueUndated]) (simp add: overdueUndated_reachable overdueUndated_tasks)
  show ?thesis
  proof (intro conjI impI)
    show "status (tasks (snd (taskUpdate i data w)) ! k) =
           (if resetFires (tasks w ! k) data (clock w (Suc (ticks w)))
            then Pendente else status (tasks w ! k))"
      by (rule st)
    show "map HistoryData.truncate
            (filter isStatusChange (appended w (snd (taskUpdate i data w))))
         = (if resetFires (tasks w ! k) data (clock w (Suc (ticks w)))
            then [statusEntry i Vencida Pendente ''Automatica''] else [])"
      by (rule h)
    show "\<exists>w0. reachable w0
           \<and> (\<exists>t\<in>set (tasks w0). status t = Vencida \<and> dataVencimento t = None)"
      by (rule reach)
  next
    assume a: "status (tasks w ! k) = Vencida \<and> dataVencimento data = None"
    then show "status (tasks (snd (taskUpdate i data w)) ! k) = Vencida"
      using st by (simp add: resetFires_def)
    from a show "dataVencimento (tasks (snd (taskUpdate i data w)) ! k) = None"
      using dv by simp
  qed
qed

theorem taskUpdate_reset_condition_witness:
  "findIndex (\<lambda>t. id_task t = ''t1'')
     (tasks (storeOf [sampleTask ''t1'' Vencida (Some ''15/03/2024'') (Some ''08:00'')])) = Some 0
   \<and> validation (TaskRequest.truncate
        (sampleTask ''t1'' Vencida (Some ''15/03/2024'') (Some ''08:00''))) = None
   \<and> resetFires (sampleTask ''t1'' Vencida (Some ''15/03/2024'') (Some ''08:00''))
        (TaskRequest.truncate (sampleTask ''t1'' Vencida (Some ''15/03/2024'') (Some ''08:00'')))
        (clock0 1)
   \<and> status (tasks (snd (taskUpdate ''t1''
        (TaskRequest.truncate (sampleTask ''t1'' Vencida (Some ''15/03/2024'') (Some ''08:00'')))
        (storeOf [sampleTask ''t1'' Vencida (Some ''15/03/2024'') (Some ''08:00'')]))) ! 0)
       = Pendente
   \<and> validation undatedRequest = None
   \<and> dataVencimento undatedRequest = None
   \<and> status (tasks (snd (taskUpdate ''t1'' undatedRequest
        (storeOf [sampleTask ''t1'' Vencida (Some ''15/03/2024'') (Some ''08:00'')]))) ! 0)
       = Vencida
   \<and> dataVencimento (tasks (snd (taskUpdate ''t1'' undatedRequest
        (storeOf [sampleTask ''t1'' Vencida (Some ''15/03/2024'') (Some ''08:00'')]))) ! 0)
       = None"
  using
    taskUpdate_reset_condition
      [of "''t1''" "storeOf [sampleTask ''t1'' Vencida (Some ''15/03/2024'') (Some ''08:00'')]" 0
          "TaskRequest.truncate (sampleTask ''t1'' Vencida (Some ''15/03/2024'') (Some ''08:00''))"]
    taskUpdate_reset_condition
      [of "''t1''" "storeOf [sampleTask ''t1'' Vencida (Some ''15/03/2024'') (Some ''08:00'')]" 0
          undatedRequest]
  by (simp add: storeOf_def sampleTask_def undatedRequest_def validation_def trim_def
      isSpace_def clock0_def date_defs resetFires_def TaskRequest.truncate_def updatedTask_def)

section \<open>The overdue sweep\<close>

lemma parseDueDate_midnight:
  assumes "parseDueDate s = Some d"
  shows "d mod msPerDay = 0"
proof -
  from assms obtain n where "timeClip (n * msPerDay) = Some d"
    by (auto simp: parseDueDate_def Date_ymd_def Let_def split: option.splits)
  then have "d = n * msPerDay"
    by (simp add: timeClip_def split: if_splits)
  then show ?thesis by simp
qed

lemma midnight_parts:
  assumes "d mod msPerDay = 0"
  shows "d div msPerDay * msPerDay = d" and "(d div 1000) mod 60 = 0" and "d mod 1000 = 0"
proof -
  from assms have "msPerDay dvd d" by (rule mod_0_imp_dvd)
  then obtain n where n: "d = msPerDay * n" by (rule dvdE)
  have d1000: "d = 1000 * (86400 * n)" using n by (simp add: msPerDay_def)
  show "d div msPerDay * msPerDay = d" using assms by (simp add: mod_0_imp_dvd)
  have "d div 1000 = 60 * (1440 * n)" by (simp add: d1000)
  then show "(d div 1000) mod 60 = 0" by (simp only: mod_mult_self1_is_0)
  show "d mod 1000 = 0" by (simp only: d1000 mod_mult_self1_is_0)
qed

lemma dueDate_checkOverdue_eq: "dueDate_checkOverdue task = effectiveDueMoment task"
proof (cases "dueDateOf (dataVencimento task)")
  case None
  then show ?thesis
    by (simp add: dueDate_checkOverdue_def effectiveDueMoment_def applyDueTime_def setHours_def
        Let_def)
next
  case (Some d)
  then have "d mod msPerDay = 0"
    by (simp add: dueDateOf_def parseDueDate_midnight)
  note m = midnight_parts [OF this]
  show ?thesis
    using Some m
    by (simp add: dueDate_checkOverdue_def effectiveDueMoment_def applyDueTime_def setHours_def
        Let_def secFromTime_def msFromTime_def split: option.splits)
qed

lemma checkOverdue_loop_Cons:
  "checkOverdue_loop now (task # rest) w =
     (if isOverdue now task then
        (task\<lparr>status := Vencida, dataAtualizacao := clock w (ticks w)\<rparr>
           # fst (checkOverdue_loop now rest
                   (recordHistory
                      \<lparr>idTarefa = id_task task, tipoAlteracao = ''Alteracao de Status'',
                       campoAlterado = Some ''status'',
                       valorAnterior = Some (statusValue Pendente),
                       valorNovo = Some (statusValue Vencida),
                       origemAlteracao = ''Automatica''\<rparr> (w\<lparr>ticks := Suc (ticks w)\<rparr>))),
         snd (checkOverdue_loop now rest
                   (recordHistory
                      \<lparr>idTarefa = id_task task, tipoAlteracao = ''Alteracao de Status'',
                       campoAlterado = Some ''status'',
                       valorAnterior = Some (statusValue Pendente),
                       valorNovo = Some (statusValue Vencida),
                       origemAlteracao = ''Automatica''\<rparr> (w\<lparr>ticks := Suc (ticks w)\<rparr>))))
      else (task # fst (checkOverdue_loop now rest w), snd (checkOverdue_loop now rest w)))"
  by (simp add: Let_def newDate_def split: prod.splits)

lemma checkOverdue_loop_env:
  "clock (snd (checkOverdue_loop now ts w)) = clock w
   \<and> uuids (snd (checkOverdue_loop now ts w)) = uuids w
   \<and> tasks (snd (checkOverdue_loop now ts w)) = tasks w
   \<and> ticks (snd (checkOverdue_loop now ts w)) = ticks w + 2 * length (filter (isOverdue now) ts)"
proof (induction ts arbitrary: w)
  case Nil
  then show ?case by simp
next
  case (Cons task rest)
  show ?case
    unfolding checkOverdue_loop_Cons
    by (simp add: Cons.IH recordHistory_eq)
qed

lemma checkOverdue_loop_length:
  "length (fst (checkOverdue_loop now ts w)) = length ts"
proof (induction ts arbitrary: w)
  case Nil
  then show ?case by simp
next
  case (Cons task rest)
  show ?case
    unfolding checkOverdue_loop_Cons by (simp add: Cons.IH)
qed

lemma checkOverdue_loop_nth:
  "j < length ts \<Longrightarrow>
   fst (checkOverdue_loop now ts w) ! j =
     (if isOverdue now (ts ! j)
      then (ts ! j)\<lparr>status := Vencida,
                     dataAtualizacao :=
                       clock w (ticks w + 2 * length (filter (isOverdue now) (take j ts)))\<rparr>
      else ts ! j)"
proof (induction ts arbitrary: w j)
  case Nil
  then show ?case by simp
next
  case (Cons task rest)
  show ?case
  proof (cases j)
    case 0
    then show ?thesis
      unfolding checkOverdue_loop_Cons by simp
  next
    case (Suc j')
    with Cons.prems have j': "j' < length rest" by simp
    show ?thesis
      unfolding checkOverdue_loop_Cons
      using Suc Cons.IH [OF j'] by (simp add: recordHistory_eq)
  qed
qed

lemma checkOverdue_loop_history:
  "\<exists>new. history (snd (checkOverdue_loop now ts w)) = history w @ new
     \<and> map HistoryData.truncate new = map overdueEntry (filter (isOverdue now) ts)"
proof (induction ts arbitrary: w)
  case Nil
  then show ?case by simp
next
  case (Cons task rest)
  show ?case
  proof (cases "isOverdue now task")
    case False
    with Cons.IH [of w] show ?thesis
      unfolding checkOverdue_loop_Cons by simp
  next
    case True
    let ?w2 = "recordHistory
                      \<lparr>idTarefa = id_task task, tipoAlteracao = ''Alteracao de Status'',
                       campoAlterado = Some ''status'',
                       valorAnterior = Some (statusValue Pendente),
                       valorNovo = Some (statusValue Vencida),
                       origemAlteracao = ''Automatica''\<rparr> (w\<lparr>ticks := Suc (ticks w)\<rparr>)"
    obtain e where e: "history ?w2 = history w @ [e]"
      and te: "HistoryData.truncate e = overdueEntry task"
      by (simp add: recordHistory_eq overdueEntry_def statusEntry_def HistoryData.truncate_def)
    from Cons.IH [of ?w2] obtain new where
      h: "history (snd (checkOverdue_loop now rest ?w2)) = history ?w2 @ new" and
      m: "map HistoryData.truncate new = map overdueEntry (filter (isOverdue now) rest)"
      by blast
    have "history (snd (checkOverdue_loop now (task # rest) w)) = history w @ (e # new)"
      unfolding checkOverdue_loop_Cons using True h e by simp
    moreover have "map HistoryData.truncate (e # new)
        = map overdueEntry (filter (isOverdue now) (task # rest))"
      using True te m by simp
    ultimately show ?thesis by blast
  qed
qed

lemma taskCheckOverdue_eq:
  "taskCheckOverdue w =
     (snd (checkOverdue_loop (clock w (ticks w)) (tasks w) (w\<lparr>ticks := Suc (ticks w)\<rparr>)))
       \<lparr>tasks := fst (checkOverdue_loop (clock w (ticks w)) (tasks w)
                       (w\<lparr>ticks := Suc (ticks w)\<rparr>))\<rparr>"
  by (simp add: taskCheckOverdue_def newDate_def split: prod.splits)

lemma isOverdue_shouldFlip: "isOverdue now = shouldFlip now"
  by (rule ext) (simp add: isOverdue_def shouldFlip_def dueDate_checkOverdue_eq)

text \<open>
  C2. After \<open>taskCheckOverdue\<close> has run at the moment \<open>now\<close> (its first clock reading),
  the store has the same tasks in the same places, and a task went from \<open>Pendente\<close> to
  \<open>Vencida\<close> if and only if it was \<open>Pendente\<close>, had a due date, and its effective due
  moment (the due date at the due time, or at 23:59:59 without one) was strictly before
  \<open>now\<close>. A flipped task differs from the old one in its status and in its last-update
  timestamp, a clock reading taken during the sweep; every other task, a \<open>Concluida\<close>
  one in particular, is unchanged. The history keeps its entries and gains one entry
  \<open>Alteracao de Status\<close> with origin \<open>Automatica\<close> per flipped task, in task order.
\<close>

theorem taskCheckOverdue_flips:
  "length (tasks (taskCheckOverdue w)) = length (tasks w)
   \<and> (\<forall>j<length (tasks w).
         tasks (taskCheckOverdue w) ! j =
           (if shouldFlip (clock w (ticks w)) (tasks w ! j)
            then (tasks w ! j)
                   \<lparr>status := Vencida,
                    dataAtualizacao :=
                      clock w (Suc (ticks w) + 2 * length (filter (shouldFlip (clock w (ticks w)))
                                                            (take j (tasks w))))\<rparr>
            else tasks w ! j))
   \<and> (\<forall>j<length (tasks w).
         (status (tasks w ! j) = Pendente \<and> status (tasks (taskCheckOverdue w) ! j) = Vencida)
           \<longleftrightarrow> shouldFlip (clock w (ticks w)) (tasks w ! j))
   \<and> (\<forall>j<length (tasks w).
         status (tasks w ! j) = Concluida \<longrightarrow> tasks (taskCheckOverdue w) ! j = tasks w ! j)
   \<and> take (length (history w)) (history (taskCheckOverdue w)) = history w
   \<and> map HistoryData.truncate (appended w (taskCheckOverdue w)) =
         map overdueEntry (filter (shouldFlip (clock w (ticks w))) (tasks w))"
proof -
  let ?now = "clock w (ticks w)"
  let ?w1 = "w\<lparr>ticks := Suc (ticks w)\<rparr>"
  let ?w' = "taskCheckOverdue w"
  have len: "length (tasks ?w') = length (tasks w)"
    by (simp add: taskCheckOverdue_eq checkOverdue_loop_length)
  have nth: "tasks ?w' ! j =
           (if shouldFlip ?now (tasks w ! j)
            then (tasks w ! j)
                   \<lparr>status := Vencida,
                    dataAtualizacao :=
                      clock w (Suc (ticks w) + 2 * length (filter (shouldFlip ?now)
                                                            (take j (tasks w))))\<rparr>
            else tasks w ! j)" if "j < length (tasks w)" for j
    using checkOverdue_loop_nth [OF that, of ?now ?w1]
    by (simp add: taskCheckOverdue_eq isOverdue_shouldFlip)
  from checkOverdue_loop_history [of ?now "tasks w" ?w1] obtain new where
    h: "history ?w' = history w @ new" and
    m: "map HistoryData.truncate new = map overdueEntry (filter (shouldFlip ?now) (tasks w))"
    by (auto simp: taskCheckOverdue_eq isOverdue_shouldFlip)
  show ?thesis
  proof (intro conjI allI impI)
    show "length (tasks ?w') = length (tasks w)" by (rule len)
    show "take (length (history w)) (history ?w') = history w" by (simp add: h)
    show "map HistoryData.truncate (appended w ?w') =
         map overdueEntry (filter (shouldFlip ?now) (tasks w))"
      by (simp add: appended_def h m)
  next
    fix j assume "j < length (tasks w)"
    then show "tasks ?w' ! j =
           (if shouldFlip ?now (tasks w ! j)
            then (tasks w ! j)
                   \<lparr>status := Vencida,
                    dataAtualizacao :=
                      clock w (Suc (ticks w) + 2 * length (filter (shouldFlip ?now)
                                                            (take j (tasks w))))\<rparr>
            else tasks w ! j)"
      by (rule nth)
  next
    fix j assume j: "j < length (tasks w)"
    show "(status (tasks w ! j) = Pendente \<and> status (tasks ?w' ! j) = Vencida)
           \<longleftrightarrow> shouldFlip ?now (tasks w ! j)"
      using nth [OF j] by (auto simp: shouldFlip_def)
  next
    fix j assume j: "j < length (tasks w)" and c: "status (tasks w ! j) = Concluida"
    then have "\<not> shouldFlip ?now (tasks w ! j)" by (simp add: shouldFlip_def)
    with nth [OF j] show "tasks ?w' ! j = tasks w ! j" by simp
  qed
qed

theorem taskCheckOverdue_flips_witness:
  "map status (tasks sweepStore) = [Pendente, Pendente, Concluida, Pendente]
   \<and> map effectiveDueMoment (tasks sweepStore) =
       [Some 1710460799000, Some 1710633599000, Some 1710460799000, Some 1710495000000]
   \<and> clock sweepStore (ticks sweepStore) = 1710496800000
   \<and> map status (tasks (taskCheckOverdue sweepStore)) = [Vencida, Pendente, Concluida, Vencida]
   \<and> map dataAtualizacao (tasks (taskCheckOverdue sweepStore)) =
       [1710496800001, 1710400000000, 1710400000000, 1710496800003]
   \<and> map HistoryData.truncate (appended sweepStore (taskCheckOverdue sweepStore)) =
       [\<lparr>idTarefa = ''t1'', tipoAlteracao = ''Alteracao de Status'',
         campoAlterado = Some ''status'', valorAnterior = Some ''Pendente'',
         valorNovo = Some ''Vencida'', origemAlteracao = ''Automatica''\<rparr>,
        \<lparr>idTarefa = ''t4'', tipoAlteracao = ''Alteracao de Status'',
         campoAlterado = Some ''status'', valorAnterior = Some ''Pendente'',
         valorNovo = Some ''Vencida'', origemAlteracao = ''Automatica''\<rparr>]"
  using taskCheckOverdue_flips [of sweepStore]
  by (simp add: sweepStore_def storeOf_def sampleTask_def clock0_def uuids0_def
      taskCheckOverdue_def newDate_def isOverdue_def dueDate_checkOverdue_def
      effectiveDueMoment_def sample_defs
      recordHistory_eq appended_def HistoryData.truncate_def Let_def)

section \<open>Status changes through the controller\<close>

lemma taskUpdateStatus_status:
  assumes "j < length (tasks w)"
  shows "length (tasks (snd (taskUpdateStatus i newStatus w))) = length (tasks w)
     \<and> (status (tasks (snd (taskUpdateStatus i newStatus w)) ! j) = status (tasks w ! j)
        \<or> status (tasks (snd (taskUpdateStatus i newStatus w)) ! j) = newStatus)"
proof (cases "findIndex (\<lambda>t. id_task t = i) (tasks w)")
  case None
  then show ?thesis by (simp add: taskUpdateStatus_def)
next
  case (Some k)
  show ?thesis
  proof (cases "status (tasks w ! k) = Vencida \<and> newStatus = Pendente")
    case True
    with Some show ?thesis by (simp add: taskUpdateStatus_def)
  next
    case False
    from taskUpdateStatus_found [OF Some False] assms show ?thesis
      by (cases "j = k") simp_all
  qed
qed

lemma taskUpdateStatus_result:
  "fst (taskUpdateStatus i newStatus w) = Inr (Some task) \<Longrightarrow> status task = newStatus"
proof (cases "findIndex (\<lambda>t. id_task t = i) (tasks w)")
  case None
  assume "fst (taskUpdateStatus i newStatus w) = Inr (Some task)"
  with None show ?thesis by (simp add: taskUpdateStatus_def)
next
  case (Some k)
  assume r: "fst (taskUpdateStatus i newStatus w) = Inr (Some task)"
  show ?thesis
  proof (cases "status (tasks w ! k) = Vencida \<and> newStatus = Pendente")
    case True
    with Some r show ?thesis by (simp add: taskUpdateStatus_def)
  next
    case False
    from taskUpdateStatus_found [OF Some False] r show ?thesis by auto
  qed
qed

lemma statusSchema_range: "statusSchema body = Some st \<Longrightarrow> st \<noteq> Vencida"
  by (auto simp: statusSchema_def split: if_splits)

lemma updateStatusHandler_cases:
  "(snd (updateStatusHandler isUuid idParam body w) = w
      \<and> (\<forall>task. fst (updateStatusHandler isUuid idParam body w) \<noteq> Success task))
   \<or> (\<exists>st. statusSchema body = Some st
         \<and> snd (updateStatusHandler isUuid idParam body w) = snd (taskUpdateStatus idParam st w)
         \<and> (\<forall>task. fst (updateStatusHandler isUuid idParam body w) = Success task
               \<longrightarrow> fst (taskUpdateStatus idParam st w) = Inr (Some task)))"
proof (cases "isUuid idParam")
  case False
  then show ?thesis by (simp add: updateStatusHandler_def)
next
  case True
  show ?thesis
  proof (cases "statusSchema body")
    case None
    with True show ?thesis by (simp add: updateStatusHandler_def)
  next
    case (Some st)
    obtain r w' where run: "taskUpdateStatus idParam st w = (r, w')"
      by (cases "taskUpdateStatus idParam st w")
    have "snd (updateStatusHandler isUuid idParam body w) = w'"
      using True Some run
      by (simp add: updateStatusHandler_def split: sum.splits option.splits)
    moreover have "\<forall>task. fst (updateStatusHandler isUuid idParam body w) = Success task
               \<longrightarrow> r = Inr (Some task)"
      using True Some run
      by (simp add: updateStatusHandler_def split: sum.splits option.splits)
    ultimately show ?thesis using Some run by simp
  qed
qed

text \<open>
  C8 (as amended). \<open>taskUpdateStatus\<close> itself does not refuse the new status \<open>Vencida\<close>;
  what keeps a \<open>Pendente\<close> task from becoming \<open>Vencida\<close> by an explicit status change is
  the request handler, whose schema admits only \<open>Pendente\<close> and \<open>Concluida\<close>. For every
  task that is \<open>Pendente\<close>: \<open>taskUpdateStatus\<close> with a new status other than \<open>Vencida\<close>
  does not leave it \<open>Vencida\<close>, and no request to \<open>updateStatusHandler\<close>, whatever its
  identifier and body, leaves it \<open>Vencida\<close> or returns a task that is \<open>Vencida\<close>.
\<close>

theorem status_change_never_overdue:
  assumes "j < length (tasks w)" and "status (tasks w ! j) = Pendente"
  shows "(newStatus \<noteq> Vencida \<longrightarrow>
            status (tasks (snd (taskUpdateStatus i newStatus w)) ! j) \<noteq> Vencida)
       \<and> length (tasks (snd (updateStatusHandler isUuid idParam body w))) = length (tasks w)
       \<and> status (tasks (snd (updateStatusHandler isUuid idParam body w)) ! j) \<noteq> Vencida
       \<and> (\<forall>task. fst (updateStatusHandler isUuid idParam body w) = Success task
             \<longrightarrow> status task \<noteq> Vencida)"
proof -
  have svc: "status (tasks (snd (taskUpdateStatus i' st w)) ! j) \<noteq> Vencida"
    if "st \<noteq> Vencida" for i' st
    using taskUpdateStatus_status [OF assms(1), of i' st] assms(2) that by auto
  from updateStatusHandler_cases [of isUuid idParam body w]
  show ?thesis
  proof
    assume "snd (updateStatusHandler isUuid idParam body w) = w
      \<and> (\<forall>task. fst (updateStatusHandler isUuid idParam body w) \<noteq> Success task)"
    with assms svc show ?thesis by simp
  next
    assume "\<exists>st. statusSchema body = Some st
         \<and> snd (updateStatusHandler isUuid idParam body w) = snd (taskUpdateStatus idParam st w)
         \<and> (\<forall>task. fst (updateStatusHandler isUuid idParam body w) = Success task
               \<longrightarrow> fst (taskUpdateStatus idParam st w) = Inr (Some task))"
    then obtain st where st: "statusSchema body = Some st"
      and w': "snd (updateStatusHandler isUuid idParam body w) = snd (taskUpdateStatus idParam st w)"
      and res: "\<forall>task. fst (updateStatusHandler isUuid idParam body w) = Success task
               \<longrightarrow> fst (taskUpdateStatus idParam st w) = Inr (Some task)"
      by blast
    from statusSchema_range [OF st] have nv: "st \<noteq> Vencida" .
    have ret: "\<forall>task. fst (updateStatusHandler isUuid idParam body w) = Success task
             \<longrightarrow> status task \<noteq> Vencida"
      using res nv taskUpdateStatus_result by blast
    show ?thesis
      using w' svc nv taskUpdateStatus_status [OF assms(1), of idParam st] ret by simp
  qed
qed

theorem status_change_never_overdue_witness:
  "0 < length (tasks (storeOf [sampleTask ''t1'' Pendente None None]))
   \<and> status (tasks (storeOf [sampleTask ''t1'' Pendente None None]) ! 0) = Pendente
   \<and> status (tasks (snd (updateStatusHandler (\<lambda>s. True) ''t1'' (Some ''Concluida'')
                          (storeOf [sampleTask ''t1'' Pendente None None]))) ! 0) = Concluida
   \<and> updateStatusHandler (\<lambda>s. True) ''t1'' (Some ''Vencida'')
        (storeOf [sampleTask ''t1'' Pendente None None])
       = (ValidationError ''statusInvalido'', storeOf [sampleTask ''t1'' Pendente None None])"
  using status_change_never_overdue
    [of 0 "storeOf [sampleTask ''t1'' Pendente None None]" Concluida "''t1''"
        "\<lambda>s. True" "''t1''" "Some ''Vencida''"]
  by (simp add: storeOf_def sampleTask_def updateStatusHandler_def statusSchema_def
      taskUpdateStatus_def newDate_def recordHistory_eq Let_def)

text \<open>
  Called with the new status \<open>Vencida\<close>, which its parameter type admits,
  \<open>taskUpdateStatus\<close> turns a \<open>Pendente\<close> task into a \<open>Vencida\<close> one.
\<close>

theorem taskUpdateStatus_overdue_counterexample:
  "status (tasks (storeOf [sampleTask ''t1'' Pendente None None]) ! 0) = Pendente
   \<and> fst (taskUpdateStatus ''t1'' Vencida (storeOf [sampleTask ''t1'' Pendente None None]))
       = Inr (Some (sampleTask ''t1'' Vencida None None\<lparr>dataAtualizacao := 1710496800000\<rparr>))
   \<and> status (tasks (snd (taskUpdateStatus ''t1'' Vencida
                          (storeOf [sampleTask ''t1'' Pendente None None]))) ! 0) = Vencida"
  by (simp add: storeOf_def sampleTask_def taskUpdateStatus_def newDate_def recordHistory_eq
      clock0_def Let_def)

section \<open>Listing\<close>

lemma sort_js_Nil: "sort_js cmp [] = []"
  by (simp add: sort_js_def)

lemma sort_js_Cons: "sort_js cmp (x # xs) = insert_js cmp x (sort_js cmp xs)"
  by (simp add: sort_js_def)

lemma mset_insert_js: "mset (insert_js cmp x ys) = add_mset x (mset ys)"
  by (induction ys) simp_all

lemma mset_sort_js: "mset (sort_js cmp xs) = mset xs"
  by (induction xs) (simp_all add: sort_js_Nil sort_js_Cons mset_insert_js)

lemma set_sort_js: "set (sort_js cmp xs) = set xs"
  using mset_sort_js [of cmp xs] by (metis set_mset_mset)

lemma set_insert_js: "set (insert_js cmp x ys) = insert x (set ys)"
  using mset_insert_js [of cmp x ys] by (metis set_mset_mset set_mset_add_mset_insert)

lemma segregated_append:
  "segregated P xs \<Longrightarrow> xs = filter P xs @ filter (\<lambda>x. \<not> P x) xs"
proof (induction xs)
  case Nil
  then show ?case by simp
next
  case (Cons x xs)
  show ?case
  proof (cases "P x")
    case True
    with Cons.prems have "segregated P xs" by simp
    from Cons.IH [OF this] True show ?thesis by simp
  next
    case False
    with Cons.prems have none: "\<forall>y\<in>set xs. \<not> P y" by simp
    then have "filter P xs = []" "filter (\<lambda>x. \<not> P x) xs = xs"
      by (simp_all add: filter_empty_conv filter_id_conv)
    with False show ?thesis by simp
  qed
qed

lemma segregated_insert_js:
  assumes first: "\<And>a b. P a \<Longrightarrow> \<not> P b \<Longrightarrow> sortValue (cmp a b) \<le> 0"
    and last: "\<And>a b. \<not> P a \<Longrightarrow> P b \<Longrightarrow> 0 < sortValue (cmp a b)"
  shows "segregated P ys \<Longrightarrow> segregated P (insert_js cmp x ys)"
proof (induction ys)
  case Nil
  then show ?case by simp
next
  case (Cons y ys)
  show ?case
  proof (cases "sortValue (cmp x y) \<le> 0")
    case True
    then have eq: "insert_js cmp x (y # ys) = x # y # ys" by simp
    show ?thesis
    proof (cases "P x")
      case True
      with Cons.prems show ?thesis unfolding eq by simp
    next
      case False
      have ny: "\<not> P y"
      proof
        assume "P y"
        from last [OF False this] True show False by simp
      qed
      with Cons.prems have "\<forall>z\<in>set ys. \<not> P z" by simp
      with False ny show ?thesis unfolding eq by simp
    qed
  next
    case False
    then have eq: "insert_js cmp x (y # ys) = y # insert_js cmp x ys" by simp
    show ?thesis
    proof (cases "P y")
      case True
      with Cons.prems have "segregated P ys" by simp
      from Cons.IH [OF this] True show ?thesis unfolding eq by simp
    next
      case ny: False
      have nx: "\<not> P x"
      proof
        assume "P x"
        from first [OF this ny] False show False by simp
      qed
      from ny Cons.prems have "\<forall>z\<in>set ys. \<not> P z" by simp
      with nx ny show ?thesis unfolding eq by (simp add: set_insert_js)
    qed
  qed
qed

lemma segregated_sort_js:
  assumes "\<And>a b. P a \<Longrightarrow> \<not> P b \<Longrightarrow> sortValue (cmp a b) \<le> 0"
    and "\<And>a b. \<not> P a \<Longrightarrow> P b \<Longrightarrow> 0 < sortValue (cmp a b)"
  shows "segregated P (sort_js cmp xs)"
proof (induction xs)
  case Nil
  then show ?case by (simp add: sort_js_Nil)
next
  case (Cons x xs)
  have "segregated P (insert_js cmp x (sort_js cmp xs))"
    using assms(1) assms(2) Cons.IH by (rule segregated_insert_js)
  then show ?case by (simp only: sort_js_Cons)
qed

lemma taskList_sorted:
  "\<exists>ts. fst (taskList filters w) = sort_js (compareFn filters) ts \<and> set ts \<subseteq> set (tasks w)"
  by (auto simp: taskList_def Let_def split: prod.splits if_splits)

text \<open>
  An insertion keeps a list ordered by the comparison function, and so the sort orders
  it, when the function is transitive and total on the elements at hand.
\<close>

lemma sorted_insert_js:
  assumes trans: "\<And>a b c. a \<in> S \<Longrightarrow> b \<in> S \<Longrightarrow> c \<in> S \<Longrightarrow> sortValue (cmp a b) \<le> 0 \<Longrightarrow>
             sortValue (cmp b c) \<le> 0 \<Longrightarrow> sortValue (cmp a c) \<le> 0"
    and total: "\<And>a b. a \<in> S \<Longrightarrow> b \<in> S \<Longrightarrow> \<not> sortValue (cmp a b) \<le> 0 \<Longrightarrow>
             sortValue (cmp b a) \<le> 0"
  shows "x \<in> S \<Longrightarrow> set ys \<subseteq> S \<Longrightarrow> sorted_wrt (\<lambda>a b. sortValue (cmp a b) \<le> 0) ys \<Longrightarrow>
         sorted_wrt (\<lambda>a b. sortValue (cmp a b) \<le> 0) (insert_js cmp x ys)"
proof (induction ys)
  case Nil
  then show ?case by simp
next
  case (Cons y ys)
  from Cons.prems have y: "y \<in> S" and ys: "set ys \<subseteq> S"
    and sy: "\<forall>z\<in>set ys. sortValue (cmp y z) \<le> 0"
    and sys: "sorted_wrt (\<lambda>a b. sortValue (cmp a b) \<le> 0) ys" by simp_all
  show ?case
  proof (cases "sortValue (cmp x y) \<le> 0")
    case True
    have "\<forall>z\<in>set ys. sortValue (cmp x z) \<le> 0"
    proof
      fix z assume z: "z \<in> set ys"
      with ys have "z \<in> S" by blast
      from trans [OF Cons.prems(1) y this True] sy z show "sortValue (cmp x z) \<le> 0" by blast
    qed
    with True sy sys show ?thesis by simp
  next
    case False
    from total [OF Cons.prems(1) y False] have yx: "sortValue (cmp y x) \<le> 0" .
    from Cons.IH [OF Cons.prems(1) ys sys]
    have "sorted_wrt (\<lambda>a b. sortValue (cmp a b) \<le> 0) (insert_js cmp x ys)" .
    with False yx sy show ?thesis by (simp add: set_insert_js)
  qed
qed

lemma sorted_sort_js:
  assumes trans: "\<And>a b c. a \<in> S \<Longrightarrow> b \<in> S \<Longrightarrow> c \<in> S \<Longrightarrow> sortValue (cmp a b) \<le> 0 \<Longrightarrow>
             sortValue (cmp b c) \<le> 0 \<Longrightarrow> sortValue (cmp a c) \<le> 0"
    and total: "\<And>a b. a \<in> S \<Longrightarrow> b \<in> S \<Longrightarrow> \<not> sortValue (cmp a b) \<le> 0 \<Longrightarrow>
             sortValue (cmp b a) \<le> 0"
  shows "set xs \<subseteq> S \<Longrightarrow> sorted_wrt (\<lambda>a b. sortValue (cmp a b) \<le> 0) (sort_js cmp xs)"
proof (induction xs)
  case Nil
  then show ?case by (simp add: sort_js_Nil)
next
  case (Cons x xs)
  from Cons.prems have x: "x \<in> S" and xs: "set xs \<subseteq> S" by simp_all
  have sub: "set (sort_js cmp xs) \<subseteq> S" using xs by (simp add: set_sort_js)
  have "sorted_wrt (\<lambda>a b. sortValue (cmp a b) \<le> 0) (insert_js cmp x (sort_js cmp xs))"
    using trans total x sub Cons.IH [OF xs] by (rule sorted_insert_js)
  then show ?case by (simp only: sort_js_Cons)
qed

text \<open>What the comparison by due date says of two tasks, in either direction.\<close>

lemma sortValue_uminus: "sortValue (map_option uminus v) = - sortValue v"
  by (cases v) (simp_all add: sortValue_def)

lemma comparison_dated:
  assumes "hasDueDate a" "hasDueDate b" "validDueDate a" "validDueDate b"
  shows "sortValue (comparison ''Data de vencimento'' a b) = dueTime a - dueTime b"
  using assms
  by (auto simp: comparison_def sortValue_def hasDueDate_def validDueDate_def dueTime_def
      split: option.splits)

lemma compareFn_ascending:
  assumes "orderBy filters = ''Data de vencimento''" "orderDirection filters = ''Crescente''"
    "validDueDate a" "validDueDate b"
  shows "(sortValue (compareFn filters a b) \<le> 0)
           = (if hasDueDate b then hasDueDate a \<and> dueTime a \<le> dueTime b else True)"
proof (cases "hasDueDate a \<and> hasDueDate b")
  case True
  with comparison_dated [of a b] assms show ?thesis by (simp add: compareFn_def)
next
  case False
  then show ?thesis using assms(1,2)
    by (auto simp: compareFn_def comparison_def sortValue_def hasDueDate_def)
qed

lemma compareFn_descending:
  assumes "orderBy filters = ''Data de vencimento''" "orderDirection filters \<noteq> ''Crescente''"
    "validDueDate a" "validDueDate b"
  shows "(sortValue (compareFn filters a b) \<le> 0)
           = (if hasDueDate a then hasDueDate b \<and> dueTime b \<le> dueTime a else True)"
proof (cases "hasDueDate a \<and> hasDueDate b")
  case True
  with comparison_dated [of a b] assms show ?thesis
    by (simp add: compareFn_def sortValue_uminus)
next
  case False
  then show ?thesis using assms(1,2)
    by (auto simp: compareFn_def comparison_def sortValue_def hasDueDate_def)
qed

lemma taskList_ordered:
  assumes ob: "orderBy filters = ''Data de vencimento''"
    and valid: "\<forall>t\<in>set (tasks w). validDueDate t"
  shows "sorted_wrt (\<lambda>a b. sortValue (compareFn filters a b) \<le> 0) (fst (taskList filters w))"
    and "\<forall>t\<in>set (fst (taskList filters w)). validDueDate t"
proof -
  from taskList_sorted obtain ts where
    r: "fst (taskList filters w) = sort_js (compareFn filters) ts"
    and sub: "set ts \<subseteq> set (tasks w)" by blast
  let ?S = "{t. validDueDate t}"
  from sub valid have ts: "set ts \<subseteq> ?S" by blast
  have "sorted_wrt (\<lambda>a b. sortValue (compareFn filters a b) \<le> 0) (sort_js (compareFn filters) ts)"
  proof (cases "orderDirection filters = ''Crescente''")
    case True
    show ?thesis
      by (rule sorted_sort_js [of ?S, OF _ _ ts])
         (auto simp: compareFn_ascending [OF ob True] split: if_splits)
  next
    case False
    show ?thesis
      by (rule sorted_sort_js [of ?S, OF _ _ ts])
         (auto simp: compareFn_descending [OF ob False] split: if_splits)
  qed
  then show "sorted_wrt (\<lambda>a b. sortValue (compareFn filters a b) \<le> 0) (fst (taskList filters w))"
    by (simp add: r)
  show "\<forall>t\<in>set (fst (taskList filters w)). validDueDate t"
    using ts by (auto simp: r set_sort_js)
qed

lemma taskList_dated_order:
  assumes ob: "orderBy filters = ''Data de vencimento''"
    and valid: "\<forall>t\<in>set (tasks w). validDueDate t"
  shows "orderDirection filters = ''Crescente'' \<Longrightarrow> dueAscending (fst (taskList filters w))"
    and "orderDirection filters \<noteq> ''Crescente'' \<Longrightarrow> dueDescending (fst (taskList filters w))"
proof -
  let ?r = "fst (taskList filters w)"
  note s = taskList_ordered [OF ob valid]
  have f: "sorted_wrt (\<lambda>a b. sortValue (compareFn filters a b) \<le> 0) (filter hasDueDate ?r)"
    using s(1) by (rule sorted_wrt_filter)
  have v: "\<forall>t\<in>set (filter hasDueDate ?r). validDueDate t \<and> hasDueDate t"
    using s(2) by simp
  {
    assume asc: "orderDirection filters = ''Crescente''"
    have "sorted_wrt (\<lambda>a b. dueTime a \<le> dueTime b) (filter hasDueDate ?r)"
    proof (rule sorted_wrt_mono_rel [OF _ f])
      fix a b assume "a \<in> set (filter hasDueDate ?r)" "b \<in> set (filter hasDueDate ?r)"
        and le: "sortValue (compareFn filters a b) \<le> 0"
      with v have "validDueDate a" "validDueDate b" "hasDueDate b" by blast+
      with le compareFn_ascending [OF ob asc, of a b] show "dueTime a \<le> dueTime b" by simp
    qed
    then show "dueAscending ?r" by (simp add: dueAscending_def)
  }
  {
    assume desc: "orderDirection filters \<noteq> ''Crescente''"
    have "sorted_wrt (\<lambda>a b. dueTime b \<le> dueTime a) (filter hasDueDate ?r)"
    proof (rule sorted_wrt_mono_rel [OF _ f])
      fix a b assume "a \<in> set (filter hasDueDate ?r)" "b \<in> set (filter hasDueDate ?r)"
        and le: "sortValue (compareFn filters a b) \<le> 0"
      with v have "validDueDate a" "validDueDate b" "hasDueDate a" by blast+
      with le compareFn_descending [OF ob desc, of a b] show "dueTime b \<le> dueTime a" by simp
    qed
    then show "dueDescending ?r" by (simp add: dueDescending_def)
  }
qed

text \<open>
  C6 (as amended). When \<open>taskList\<close> sorts by due date, the direction reverses the whole
  comparison, the placement of the tasks without a due date included. With
  \<open>Crescente\<close> every task without a due date comes after every task that has one, and
  the tasks that have one come in ascending order of due date. With any other direction
  (\<open>Decrescente\<close>) every task without a due date comes before every task that has one,
  the tasks that have one come in descending order of due date, and the value the
  comparison function returns for any two tasks is the negation of the value it returns
  for them with \<open>Crescente\<close>. The order of the dated tasks is stated for stores in which
  every due date denotes a date.
\<close>

theorem taskList_undated_placement:
  assumes "orderBy filters = ''Data de vencimento''"
  shows "(orderDirection filters = ''Crescente'' \<longrightarrow>
            datedFirst (fst (taskList filters w))
            \<and> ((\<forall>t\<in>set (tasks w). validDueDate t) \<longrightarrow>
                 dueAscending (fst (taskList filters w))))
       \<and> (orderDirection filters \<noteq> ''Crescente'' \<longrightarrow>
            undatedFirst (fst (taskList filters w))
            \<and> ((\<forall>t\<in>set (tasks w). validDueDate t) \<longrightarrow>
                 dueDescending (fst (taskList filters w)))
            \<and> (\<forall>a b. sortValue (compareFn filters a b)
                   = - sortValue (compareFn (filters\<lparr>orderDirection := ''Crescente''\<rparr>) a b)))"
proof -
  from taskList_sorted obtain ts where
    r: "fst (taskList filters w) = sort_js (compareFn filters) ts" by blast
  show ?thesis
  proof (intro conjI impI)
    assume asc: "orderDirection filters = ''Crescente''"
    have "segregated hasDueDate (sort_js (compareFn filters) ts)"
      by (rule segregated_sort_js)
         (simp_all add: compareFn_def comparison_def assms asc hasDueDate_def sortValue_def)
    from segregated_append [OF this] show "datedFirst (fst (taskList filters w))"
      by (simp add: datedFirst_def r)
    assume "\<forall>t\<in>set (tasks w). validDueDate t"
    from taskList_dated_order(1) [OF assms this asc]
    show "dueAscending (fst (taskList filters w))" .
  next
    assume desc: "orderDirection filters \<noteq> ''Crescente''"
    have "segregated (\<lambda>t. \<not> hasDueDate t) (sort_js (compareFn filters) ts)"
      by (rule segregated_sort_js)
         (simp_all add: compareFn_def comparison_def assms desc hasDueDate_def sortValue_def)
    from segregated_append [OF this] show "undatedFirst (fst (taskList filters w))"
      by (simp add: undatedFirst_def r)
    show "\<forall>a b. sortValue (compareFn filters a b)
             = - sortValue (compareFn (filters\<lparr>orderDirection := ''Crescente''\<rparr>) a b)"
      using desc by (simp add: compareFn_def sortValue_uminus)
    assume "\<forall>t\<in>set (tasks w). validDueDate t"
    from taskList_dated_order(2) [OF assms this desc]
    show "dueDescending (fst (taskList filters w))" .
  qed
qed

lemmas list_defs =
  taskList_def listFilters_def datedAndUndated_def storeOf_def sampleTask_def sort_js_def
  compareFn_def comparison_def sortValue_def dueDateOf_def parseDueDate_def piece_def
  Number_js_def digitValue_def Date_ymd_def makeDay_def daysFromCivil_def msPerDay_def
  timeClip_def newDate_def Let_def

lemmas order_defs =
  taskList_def listFilters_def datedAndUndated_def mixedDates_def storeOf_def sampleTask_def
  sort_js_def compareFn_def comparison_def sortValue_def dueDateOf_def sample_dates
  newDate_def Let_def hasDueDate_def validDueDate_def dueAscending_def dueDescending_def
  dueTime_def datedFirst_def undatedFirst_def

theorem taskList_undated_placement_witness:
  "orderBy (listFilters ''Todas'' ''Data de vencimento'' ''Crescente'') = ''Data de vencimento''
   \<and> map (\<lambda>t. dueDateOf (dataVencimento t)) (filter hasDueDate (tasks mixedDates))
       = [Some 1710547200000, Some 1710720000000, Some 1710633600000]
   \<and> map id_task (fst (taskList (listFilters ''Todas'' ''Data de vencimento'' ''Crescente'')
                           mixedDates)) = [''t1'', ''t4'', ''t3'', ''t2'']
   \<and> datedFirst (fst (taskList (listFilters ''Todas'' ''Data de vencimento'' ''Crescente'')
                        mixedDates))
   \<and> dueAscending (fst (taskList (listFilters ''Todas'' ''Data de vencimento'' ''Crescente'')
                          mixedDates))
   \<and> map id_task (fst (taskList (listFilters ''Todas'' ''Data de vencimento'' ''Decrescente'')
                           mixedDates)) = [''t2'', ''t3'', ''t4'', ''t1'']
   \<and> undatedFirst (fst (taskList (listFilters ''Todas'' ''Data de vencimento'' ''Decrescente'')
                          mixedDates))
   \<and> dueDescending (fst (taskList (listFilters ''Todas'' ''Data de vencimento'' ''Decrescente'')
                           mixedDates))
   \<and> map id_task (fst (taskList (listFilters ''Todas'' ''Data de vencimento'' ''Crescente'')
                           datedAndUndated)) = [''t1'', ''t3'', ''t2'']
   \<and> map id_task (fst (taskList (listFilters ''Todas'' ''Data de vencimento'' ''Decrescente'')
                           datedAndUndated)) = [''t2'', ''t3'', ''t1'']"
  using
    taskList_undated_placement
      [of "listFilters ''Todas'' ''Data de vencimento'' ''Crescente''" mixedDates]
    taskList_undated_placement
      [of "listFilters ''Todas'' ''Data de vencimento'' ''Decrescente''" mixedDates]
  by (simp add: order_defs)

text \<open>
  With \<open>Decrescente\<close> the task without a due date is listed first, before the two
  dated tasks.
\<close>

theorem taskList_undated_first_counterexample:
  "map id_task (fst (taskList (listFilters ''Todas'' ''Data de vencimento'' ''Decrescente'')
                       datedAndUndated)) = [''t2'', ''t3'', ''t1'']
   \<and> map hasDueDate (fst (taskList (listFilters ''Todas'' ''Data de vencimento'' ''Decrescente'')
                            datedAndUndated)) = [False, True, True]
   \<and> \<not> datedFirst (fst (taskList (listFilters ''Todas'' ''Data de vencimento'' ''Decrescente'')
                          datedAndUndated))"
  by (simp add: list_defs hasDueDate_def datedFirst_def)

lemma dueSoonMoment_eq:
  "(if truthy (horaVencimento task)
    then applyDueTime (dueDateOf (dataVencimento task)) (text_of (horaVencimento task))
    else dueDateOf (dataVencimento task)) = dueSoonMoment task"
proof (cases "dueDateOf (dataVencimento task)")
  case None
  then show ?thesis
    by (simp add: dueSoonMoment_def applyDueTime_def setHours_def Let_def)
next
  case (Some d)
  then have "d mod msPerDay = 0"
    by (simp add: dueDateOf_def parseDueDate_midnight)
  note m = midnight_parts [OF this]
  show ?thesis
    using Some m
    by (simp add: dueSoonMoment_def applyDueTime_def setHours_def
        Let_def secFromTime_def msFromTime_def split: option.splits)
qed

lemma periodFilter_dueSoon:
  "periodFilter ''Proximas ao vencimento'' now task = dueSoon now task"
  unfolding dueSoon_def inWindow_def dueSoonMoment_eq [symmetric]
  by (auto simp add: periodFilter_def Let_def)

lemma taskList_period:
  assumes "filterPeriod filters \<noteq> ''Todas''"
  shows "\<exists>ts. fst (taskList filters w) = sort_js (compareFn filters) ts
           \<and> set ts \<subseteq> {t \<in> set (tasks w). periodFilter (filterPeriod filters) (clock w (ticks w)) t}
           \<and> (filterStatus filters = ''Todas'' \<and> filterImportance filters = ''Todas''
                \<and> \<not> truthy (searchTerm filters) \<longrightarrow>
              ts = filter (periodFilter (filterPeriod filters) (clock w (ticks w))) (tasks w))"
  using assms by (auto simp: taskList_def Let_def newDate_def)

text \<open>
  C7 (as amended). Under the period filter \<open>Proximas ao vencimento\<close> a task is retained
  if and only if it is \<open>Pendente\<close>, has a due date, and its due moment, which is the due
  date at the due time, or at 00:00:00 of the due date when no due time is set, lies in
  the window from \<open>now\<close> to \<open>now\<close> plus 48 hours, both ends included. Every task that
  \<open>taskList\<close> returns under this filter is such a task of the store, and when the
  other filters let everything through, the result holds exactly those tasks.
\<close>

theorem taskList_due_soon:
  assumes "filterPeriod filters = ''Proximas ao vencimento''"
  shows "(periodFilter (filterPeriod filters) now task \<longleftrightarrow> dueSoon now task)
       \<and> (\<forall>t\<in>set (fst (taskList filters w)).
             t \<in> set (tasks w) \<and> dueSoon (clock w (ticks w)) t)
       \<and> (filterStatus filters = ''Todas'' \<and> filterImportance filters = ''Todas''
             \<and> \<not> truthy (searchTerm filters) \<longrightarrow>
           mset (fst (taskList filters w)) = mset (filter (dueSoon (clock w (ticks w))) (tasks w)))"
proof -
  have ne: "filterPeriod filters \<noteq> ''Todas''" using assms by simp
  have pf: "periodFilter (filterPeriod filters) = periodFilter ''Proximas ao vencimento''"
    using assms by simp
  from taskList_period [OF ne, of w] obtain ts where
    r: "fst (taskList filters w) = sort_js (compareFn filters) ts" and
    sub: "set ts \<subseteq> {t \<in> set (tasks w).
                      periodFilter (filterPeriod filters) (clock w (ticks w)) t}" and
    all: "filterStatus filters = ''Todas'' \<and> filterImportance filters = ''Todas''
                \<and> \<not> truthy (searchTerm filters) \<longrightarrow>
              ts = filter (periodFilter (filterPeriod filters) (clock w (ticks w))) (tasks w)"
    by blast
  have same: "periodFilter (filterPeriod filters) (clock w (ticks w))
                = dueSoon (clock w (ticks w))"
    by (rule ext) (simp add: pf periodFilter_dueSoon)
  show ?thesis
  proof (intro conjI ballI impI)
    show "periodFilter (filterPeriod filters) now task \<longleftrightarrow> dueSoon now task"
      by (simp add: pf periodFilter_dueSoon)
  next
    fix t assume "t \<in> set (fst (taskList filters w))"
    then have "t \<in> set ts" by (simp add: r set_sort_js)
    with sub have t: "t \<in> set (tasks w)"
      "periodFilter (filterPeriod filters) (clock w (ticks w)) t" by auto
    show "t \<in> set (tasks w)" by (rule t(1))
    show "dueSoon (clock w (ticks w)) t" using t(2) by (simp only: same)
  next
    assume "filterStatus filters = ''Todas'' \<and> filterImportance filters = ''Todas''
             \<and> \<not> truthy (searchTerm filters)"
    with all have "ts = filter (periodFilter (filterPeriod filters) (clock w (ticks w)))
                          (tasks w)"
      by blast
    then have "ts = filter (dueSoon (clock w (ticks w))) (tasks w)"
      by (simp only: same)
    then show "mset (fst (taskList filters w))
                 = mset (filter (dueSoon (clock w (ticks w))) (tasks w))"
      by (simp only: r mset_sort_js)
  qed
qed

theorem taskList_due_soon_witness:
  "filterPeriod (listFilters ''Proximas ao vencimento'' ''Data de vencimento'' ''Crescente'')
      = ''Proximas ao vencimento''
   \<and> clock dueSoonStore (ticks dueSoonStore) = 1710496800000
   \<and> map dueSoonMoment (tasks dueSoonStore) =
       [Some 1710460800000, Some 1710547200000, Some 1710525600000, Some 1710720000000,
        Some 1710547200000]
   \<and> map (dueSoon 1710496800000) (tasks dueSoonStore) = [False, True, True, False, False]
   \<and> map id_task
        (fst (taskList (listFilters ''Proximas ao vencimento'' ''Data de vencimento'' ''Crescente'')
                dueSoonStore)) = [''t3'', ''t2'']"
  using taskList_due_soon
    [of "listFilters ''Proximas ao vencimento'' ''Data de vencimento'' ''Crescente''"
        1710496800000 "sampleTask ''t2'' Pendente (Some ''16/03/2024'') None" dueSoonStore]
  by (simp add: listFilters_def dueSoonStore_def storeOf_def sampleTask_def clock0_def
      taskList_def periodFilter_def dueSoon_def inWindow_def dueSoonMoment_def sample_defs
      sort_js_def compareFn_def comparison_def sortValue_def newDate_def Let_def)

text \<open>
  A pending task due today without a due time, at 10:00 of that day: its end of day
  23:59:59 lies in the window, yet the filter drops the task.
\<close>

theorem taskList_due_soon_counterexample:
  "status (sampleTask ''t1'' Pendente (Some ''15/03/2024'') None) = Pendente
   \<and> truthy (dataVencimento (sampleTask ''t1'' Pendente (Some ''15/03/2024'') None))
   \<and> horaVencimento (sampleTask ''t1'' Pendente (Some ''15/03/2024'') None) = None
   \<and> effectiveDueMoment (sampleTask ''t1'' Pendente (Some ''15/03/2024'') None)
       = Some 1710547199000
   \<and> clock0 0 = 1710496800000
   \<and> inWindow (clock0 0)
        (effectiveDueMoment (sampleTask ''t1'' Pendente (Some ''15/03/2024'') None))
   \<and> \<not> periodFilter ''Proximas ao vencimento'' (clock0 0)
          (sampleTask ''t1'' Pendente (Some ''15/03/2024'') None)
   \<and> fst (taskList (listFilters ''Proximas ao vencimento'' ''Data de vencimento'' ''Crescente'')
            (storeOf [sampleTask ''t1'' Pendente (Some ''15/03/2024'') None])) = []"
  by (simp add: listFilters_def storeOf_def sampleTask_def clock0_def
      taskList_def periodFilter_def inWindow_def effectiveDueMoment_def sample_defs
      sort_js_def newDate_def Let_def)

section \<open>The history is append-only\<close>

lemma taskCreate_history: "prefix (history w) (history (snd (taskCreate data w)))"
  by (cases "validation data")
     (simp_all add: taskCreate_def Let_def uuidv4_def newDate_def recordHistory_eq)

lemma taskList_history: "history (snd (taskList filters w)) = history w"
  by (simp add: taskList_def Let_def newDate_def split: prod.splits)

lemma taskList_tasks: "tasks (snd (taskList filters w)) = tasks w"
  by (simp add: taskList_def Let_def newDate_def split: prod.splits)

lemma taskUpdate_prefix: "prefix (history w) (history (snd (taskUpdate i data w)))"
proof (cases "findIndex (\<lambda>t. id_task t = i) (tasks w)")
  case None
  then show ?thesis by (simp add: taskUpdate_def)
next
  case (Some k)
  show ?thesis
  proof (cases "validation data")
    case None
    from taskUpdate_found(3) [OF Some None] show ?thesis
      by (auto simp: prefix_def)
  next
    case (Some e)
    with \<open>findIndex (\<lambda>t. id_task t = i) (tasks w) = Some k\<close> show ?thesis
      by (simp add: taskUpdate_def)
  qed
qed

lemma taskDelete_found:
  assumes "findIndex (\<lambda>t. id_task t = i) (tasks w) = Some k"
  shows "taskDelete i w =
           (True,
            w\<lparr>tasks := splice1 k (tasks w),
              history := history w @
                [\<lparr>idTarefa = i, tipoAlteracao = ''Exclusao'', campoAlterado = None,
                  valorAnterior = None, valorNovo = None, origemAlteracao = ''Manual'',
                  id_entry = uuids w (drawn w), dataAlteracao = clock w (ticks w)\<rparr>],
              ticks := Suc (ticks w), drawn := Suc (drawn w)\<rparr>)"
  using assms by (simp add: taskDelete_def recordHistory_eq)

lemma taskDelete_prefix: "prefix (history w) (history (snd (taskDelete i w)))"
proof (cases "findIndex (\<lambda>t. id_task t = i) (tasks w)")
  case None
  then show ?thesis by (simp add: taskDelete_def)
next
  case (Some k)
  then show ?thesis by (simp add: taskDelete_found)
qed

lemma taskUpdateStatus_prefix:
  "prefix (history w) (history (snd (taskUpdateStatus i newStatus w)))"
proof (cases "findIndex (\<lambda>t. id_task t = i) (tasks w)")
  case None
  then show ?thesis by (simp add: taskUpdateStatus_def)
next
  case (Some k)
  show ?thesis
  proof (cases "status (tasks w ! k) = Vencida \<and> newStatus = Pendente")
    case True
    with Some show ?thesis by (simp add: taskUpdateStatus_def)
  next
    case False
    from taskUpdateStatus_found [OF Some False] show ?thesis by simp
  qed
qed

lemma taskCheckOverdue_prefix: "prefix (history w) (history (taskCheckOverdue w))"
proof -
  from checkOverdue_loop_history
    [of "clock w (ticks w)" "tasks w" "w\<lparr>ticks := Suc (ticks w)\<rparr>"]
  show ?thesis by (auto simp: taskCheckOverdue_eq prefix_def)
qed

lemma exec_prefix: "prefix (history w) (history (exec op w))"
  by (cases op)
     (simp_all add: taskCreate_history taskList_history taskUpdate_prefix taskDelete_prefix
        taskUpdateStatus_prefix taskCheckOverdue_prefix)

lemma execAll_prefix: "prefix (history w) (history (execAll ops w))"
proof (induction ops arbitrary: w)
  case Nil
  then show ?case by (simp add: execAll_def)
next
  case (Cons op ops)
  have "prefix (history w) (history (exec op w))" by (rule exec_prefix)
  also have "prefix (history (exec op w)) (history (execAll ops (exec op w)))"
    by (rule Cons.IH)
  finally show ?case by (simp add: execAll_def)
qed

lemma splice1_distinct:
  assumes "distinct (map f xs)" and "k < length xs"
  shows "\<forall>x\<in>set (splice1 k xs). f x \<noteq> f (xs ! k)"
proof -
  have "xs = take k xs @ xs ! k # drop (Suc k) xs"
    using assms(2) by (rule id_take_nth_drop)
  then have "distinct (map f (take k xs @ xs ! k # drop (Suc k) xs))"
    using assms(1) by simp
  then have a: "f (xs ! k) \<notin> f ` set (take k xs)"
    "f (xs ! k) \<notin> f ` set (drop (Suc k) xs)"
    by auto
  show ?thesis
  proof
    fix x assume "x \<in> set (splice1 k xs)"
    then have "x \<in> set (take k xs) \<or> x \<in> set (drop (Suc k) xs)"
      by (simp add: splice1_def)
    then have "f x \<in> f ` set (take k xs) \<or> f x \<in> f ` set (drop (Suc k) xs)"
      by blast
    with a show "f x \<noteq> f (xs ! k)" by metis
  qed
qed

lemma taskList_subset: "set (fst (taskList filters w)) \<subseteq> set (tasks w)"
  using taskList_sorted [of filters w] by (auto simp: set_sort_js)

lemma idsFresh_grow:
  assumes "idsFresh w" and "map id_task (tasks w') = map id_task (tasks w)"
    and "uuids w' = uuids w" and "drawn w \<le> drawn w'"
  shows "idsFresh w'"
proof -
  have "\<exists>n<drawn w'. id_task t = uuids w' n" if "t \<in> set (tasks w')" for t
  proof -
    from that have "id_task t \<in> set (map id_task (tasks w'))" by simp
    then have "id_task t \<in> set (map id_task (tasks w))" by (simp only: assms(2))
    then obtain t0 where "t0 \<in> set (tasks w)" "id_task t0 = id_task t" by auto
    with assms(1) obtain n where "n < drawn w" "id_task t = uuids w n"
      unfolding idsFresh_def by metis
    with assms(3,4) show ?thesis by (intro exI [of _ n]) simp
  qed
  moreover have "distinct (map id_task (tasks w'))"
    using assms(1,2) by (simp add: idsFresh_def)
  ultimately show ?thesis by (simp add: idsFresh_def)
qed

lemma foldl_recordChange_env:
  "uuids (foldl (recordChange i) w cs) = uuids w
   \<and> drawn w \<le> drawn (foldl (recordChange i) w cs)"
proof (induction cs arbitrary: w)
  case Nil
  then show ?case by simp
next
  case (Cons c cs)
  have "uuids (recordChange i w c) = uuids w" "drawn w \<le> drawn (recordChange i w c)"
    by (simp_all add: recordChange_def recordHistory_eq)
  with Cons.IH [of "recordChange i w c"] show ?case by simp
qed

lemma resetOverdue_env:
  "uuids (resetOverdue i k data w) = uuids w \<and> drawn w \<le> drawn (resetOverdue i k data w)"
  by (simp add: resetOverdue_def Let_def newDate_def recordHistory_eq)

lemma taskUpdate_env:
  "uuids (snd (taskUpdate i data w)) = uuids w \<and> drawn w \<le> drawn (snd (taskUpdate i data w))"
proof (cases "findIndex (\<lambda>t. id_task t = i) (tasks w)")
  case None
  then show ?thesis by (simp add: taskUpdate_def)
next
  case (Some k)
  show ?thesis
  proof (cases "validation data")
    case None
    let ?w2 = "w\<lparr>ticks := Suc (ticks w),
                 tasks := (tasks w)[k := (tasks w ! k)
                    \<lparr>titulo := titulo data, descricao := descricao data,
                     dataVencimento := dataVencimento data,
                     horaVencimento := horaVencimento data,
                     importancia := importancia data,
                     dataAtualizacao := clock w (ticks w)\<rparr>]\<rparr>"
    have run: "snd (taskUpdate i data w)
                 = foldl (recordChange i) (resetOverdue i k data ?w2)
                     (changedFields (tasks w ! k) data)"
      using Some None by (simp add: taskUpdate_def Let_def newDate_def)
    from foldl_recordChange_env [of i "resetOverdue i k data ?w2"
        "changedFields (tasks w ! k) data"]
      resetOverdue_env [of i k data ?w2]
    show ?thesis unfolding run by simp
  next
    case (Some e)
    with \<open>findIndex (\<lambda>t. id_task t = i) (tasks w) = Some k\<close> show ?thesis
      by (simp add: taskUpdate_def)
  qed
qed

lemma taskUpdate_ids: "map id_task (tasks (snd (taskUpdate i data w))) = map id_task (tasks w)"
proof (cases "findIndex (\<lambda>t. id_task t = i) (tasks w)")
  case None
  then show ?thesis by (simp add: taskUpdate_def)
next
  case (Some k)
  show ?thesis
  proof (cases "validation data")
    case None
    from findIndex_Some [OF Some] have k: "k < length (tasks w)" by simp
    from taskUpdate_found(2) [OF Some None] k show ?thesis
      by (simp add: map_update updatedTask_def list_update_same_conv)
  next
    case (Some e)
    with \<open>findIndex (\<lambda>t. id_task t = i) (tasks w) = Some k\<close> show ?thesis
      by (simp add: taskUpdate_def)
  qed
qed

lemma taskUpdateStatus_ids:
  "map id_task (tasks (snd (taskUpdateStatus i st w))) = map id_task (tasks w)
   \<and> uuids (snd (taskUpdateStatus i st w)) = uuids w
   \<and> drawn w \<le> drawn (snd (taskUpdateStatus i st w))"
proof (cases "findIndex (\<lambda>t. id_task t = i) (tasks w)")
  case None
  then show ?thesis by (simp add: taskUpdateStatus_def)
next
  case (Some k)
  from findIndex_Some [OF Some] have k: "k < length (tasks w)" by simp
  show ?thesis
  proof (cases "status (tasks w ! k) = Vencida \<and> st = Pendente")
    case True
    with Some show ?thesis by (simp add: taskUpdateStatus_def)
  next
    case False
    from taskUpdateStatus_found [OF Some False] k show ?thesis
      by (simp add: map_update list_update_same_conv)
  qed
qed

lemma checkOverdue_loop_ids:
  "map id_task (fst (checkOverdue_loop now ts w)) = map id_task ts
   \<and> drawn w \<le> drawn (snd (checkOverdue_loop now ts w))"
proof (induction ts arbitrary: w)
  case Nil
  then show ?case by simp
next
  case (Cons task rest)
  show ?case
  proof (cases "isOverdue now task")
    case False
    with Cons.IH [of w] show ?thesis unfolding checkOverdue_loop_Cons by simp
  next
    case True
    let ?w2 = "recordHistory
                 \<lparr>idTarefa = id_task task, tipoAlteracao = ''Alteracao de Status'',
                  campoAlterado = Some ''status'',
                  valorAnterior = Some (statusValue Pendente),
                  valorNovo = Some (statusValue Vencida),
                  origemAlteracao = ''Automatica''\<rparr> (w\<lparr>ticks := Suc (ticks w)\<rparr>)"
    have "drawn w \<le> drawn ?w2" by (simp add: recordHistory_eq)
    with Cons.IH [of ?w2] True show ?thesis unfolding checkOverdue_loop_Cons by simp
  qed
qed

lemma exec_idsFresh:
  assumes "idsFresh w" and "inj (uuids w)"
  shows "idsFresh (exec op w) \<and> uuids (exec op w) = uuids w"
proof (cases op)
  case (Create data)
  show ?thesis
  proof (cases "validation data")
    case None
    have t: "map id_task (tasks (snd (taskCreate data w)))
               = map id_task (tasks w) @ [uuids w (drawn w)]"
      and u: "uuids (snd (taskCreate data w)) = uuids w"
      and d: "drawn (snd (taskCreate data w)) = Suc (Suc (drawn w))"
      using None
      by (simp_all add: taskCreate_def Let_def uuidv4_def newDate_def recordHistory_eq)
    have tl: "tasks (snd (taskCreate data w)) = tasks w @ [last (tasks (snd (taskCreate data w)))]"
      and li: "id_task (last (tasks (snd (taskCreate data w)))) = uuids w (drawn w)"
      using None
      by (simp_all add: taskCreate_def Let_def uuidv4_def newDate_def recordHistory_eq)
    have fresh: "uuids w (drawn w) \<notin> id_task ` set (tasks w)"
    proof
      assume "uuids w (drawn w) \<in> id_task ` set (tasks w)"
      then obtain t0 where "t0 \<in> set (tasks w)" "uuids w (drawn w) = id_task t0" by auto
      with assms(1) obtain n where "n < drawn w" "uuids w (drawn w) = uuids w n"
        unfolding idsFresh_def by metis
      with assms(2) show False by (auto simp: inj_def)
    qed
    have dist: "distinct (map id_task (tasks (snd (taskCreate data w))))"
      using assms(1) fresh unfolding t by (simp add: idsFresh_def)
    have "\<exists>n<drawn (snd (taskCreate data w)). id_task x = uuids (snd (taskCreate data w)) n"
      if "x \<in> set (tasks (snd (taskCreate data w)))" for x
    proof -
      from that tl have "x \<in> set (tasks w) \<or> x = last (tasks (snd (taskCreate data w)))"
        by (metis Un_iff empty_iff insert_iff list.set(1) list.set(2) set_append)
      then show ?thesis
      proof
        assume "x \<in> set (tasks w)"
        with assms(1) obtain n where "n < drawn w" "id_task x = uuids w n"
          unfolding idsFresh_def by metis
        then show ?thesis unfolding u d by (intro exI [of _ n]) simp
      next
        assume "x = last (tasks (snd (taskCreate data w)))"
        with li show ?thesis unfolding u d by (intro exI [of _ "drawn w"]) simp
      qed
    qed
    with dist have "idsFresh (snd (taskCreate data w))" by (simp add: idsFresh_def)
    with u Create show ?thesis by simp
  next
    case (Some e)
    with assms Create show ?thesis by (simp add: taskCreate_def)
  qed
next
  case (ListTasks filters)
  have "snd (taskList filters w) = w \<or> snd (taskList filters w) = w\<lparr>ticks := Suc (ticks w)\<rparr>"
    by (simp add: taskList_def Let_def newDate_def split: prod.splits)
  then have "map id_task (tasks (snd (taskList filters w))) = map id_task (tasks w)"
    "uuids (snd (taskList filters w)) = uuids w" "drawn w \<le> drawn (snd (taskList filters w))"
    by auto
  with idsFresh_grow [OF assms(1), of "snd (taskList filters w)"] ListTasks
  show ?thesis by simp
next
  case (Get i)
  with assms show ?thesis by simp
next
  case (Update i data)
  from taskUpdate_env [of i data w] taskUpdate_ids [of i data w]
    idsFresh_grow [OF assms(1), of "snd (taskUpdate i data w)"] Update
  show ?thesis by simp
next
  case (Delete i)
  show ?thesis
  proof (cases "findIndex (\<lambda>t. id_task t = i) (tasks w)")
    case None
    with assms Delete show ?thesis by (simp add: taskDelete_def)
  next
    case (Some k)
    have sub: "set (splice1 k (tasks w)) \<subseteq> set (tasks w)"
      by (auto simp: splice1_def dest: in_set_takeD in_set_dropD)
    have "map id_task (splice1 k (tasks w))
            = take k (map id_task (tasks w)) @ drop (Suc k) (map id_task (tasks w))"
      by (simp add: splice1_def take_map drop_map)
    moreover have "distinct (take k (map id_task (tasks w)) @ drop (Suc k) (map id_task (tasks w)))"
      using assms(1)
      by (simp add: idsFresh_def distinct_take distinct_drop set_take_disj_set_drop_if_distinct)
    ultimately have dist: "distinct (map id_task (splice1 k (tasks w)))" by simp
    have "\<exists>n<Suc (drawn w). id_task x = uuids w n" if "x \<in> set (splice1 k (tasks w))" for x
    proof -
      from that sub have "x \<in> set (tasks w)" by auto
      with assms(1) obtain n where "n < drawn w" "id_task x = uuids w n"
        unfolding idsFresh_def by metis
      then show ?thesis by (intro exI [of _ n]) simp
    qed
    with dist have "idsFresh (snd (taskDelete i w))"
      by (simp add: idsFresh_def taskDelete_found [OF Some])
    with Delete Some show ?thesis by (simp add: taskDelete_found)
  qed
next
  case (UpdateStatus i st)
  from taskUpdateStatus_ids [of i st w]
    idsFresh_grow [OF assms(1), of "snd (taskUpdateStatus i st w)"] UpdateStatus
  show ?thesis by simp
next
  case CheckOverdue
  let ?r = "checkOverdue_loop (clock w (ticks w)) (tasks w) (w\<lparr>ticks := Suc (ticks w)\<rparr>)"
  have "map id_task (tasks (taskCheckOverdue w)) = map id_task (tasks w)"
    "uuids (taskCheckOverdue w) = uuids w" "drawn w \<le> drawn (taskCheckOverdue w)"
    using checkOverdue_loop_ids [of "clock w (ticks w)" "tasks w" "w\<lparr>ticks := Suc (ticks w)\<rparr>"]
      checkOverdue_loop_env [of "clock w (ticks w)" "tasks w" "w\<lparr>ticks := Suc (ticks w)\<rparr>"]
    by (simp_all add: taskCheckOverdue_eq)
  with idsFresh_grow [OF assms(1), of "taskCheckOverdue w"] CheckOverdue
  show ?thesis by simp
next
  case (GetHistory i ft fo)
  with assms show ?thesis by simp
qed

lemma reachable_idsFresh:
  "reachable w \<Longrightarrow> inj (uuids w) \<Longrightarrow> idsFresh w"
proof (induction rule: reachable.induct)
  case (start c u)
  then show ?case by (simp add: idsFresh_def emptyWorld_def)
next
  case (step w op)
  have u: "uuids (exec op w) = uuids w"
  proof (cases op)
    case (Create data)
    then show ?thesis
      by (cases "validation data")
         (simp_all add: taskCreate_def Let_def uuidv4_def newDate_def recordHistory_eq)
  next
    case (ListTasks filters)
    then show ?thesis by (simp add: taskList_def Let_def newDate_def split: prod.splits)
  next
    case (Update i data)
    then show ?thesis by (simp add: taskUpdate_env)
  next
    case (Delete i)
    then show ?thesis
      by (cases "findIndex (\<lambda>t. id_task t = i) (tasks w)")
         (simp_all add: taskDelete_def recordHistory_eq)
  next
    case (UpdateStatus i st)
    then show ?thesis by (simp add: taskUpdateStatus_ids)
  next
    case CheckOverdue
    then show ?thesis
      using checkOverdue_loop_env
        [of "clock w (ticks w)" "tasks w" "w\<lparr>ticks := Suc (ticks w)\<rparr>"]
      by (simp add: taskCheckOverdue_eq)
  qed simp_all
  with step.prems have inj: "inj (uuids w)" by simp
  from exec_idsFresh [OF step.IH [OF inj] inj] show ?case by simp
qed

lemma reachable_distinct:
  "reachable w \<Longrightarrow> inj (uuids w) \<Longrightarrow> distinct (map id_task (tasks w))"
  using reachable_idsFresh by (simp add: idsFresh_def)

lemma inj_uuids0: "inj uuids0"
proof (rule injI)
  fix m n assume "uuids0 m = uuids0 n"
  then have "length (uuids0 m) = length (uuids0 n)" by simp
  then show "m = n" by (simp add: uuids0_def)
qed

lemma createdStore_reachable: "reachable createdStore"
  unfolding createdStore_def by (intro reachable.step reachable.start)

text \<open>The two sample stores, written out.\<close>

lemma createdStore_eq:
  "createdStore =
     \<lparr>tasks =
        [\<lparr>titulo = ''Pay bills'', descricao = None, dataVencimento = Some ''15/03/2024'',
          horaVencimento = None, importancia = Alta, id_task = ''u'', status = Pendente,
          dataCriacao = 1710496800000, dataAtualizacao = 1710496800001\<rparr>],
      history =
        [\<lparr>idTarefa = ''u'', tipoAlteracao = ''Criacao'', campoAlterado = None,
          valorAnterior = None, valorNovo = None, origemAlteracao = ''Manual'',
          id_entry = ''uu'', dataAlteracao = 1710496800002\<rparr>],
      clock = clock0, ticks = 3, uuids = uuids0, drawn = 2\<rparr>"
  by (simp add: createdStore_def emptyWorld_def todayRequest_def taskCreate_def validation_def
      trim_def isSpace_def uuidv4_def newDate_def recordHistory_eq clock0_def uuids0_def
      eval_nat_numeral Let_def)

lemma twoCreated_eq:
  "twoCreated =
     \<lparr>tasks =
        [\<lparr>titulo = ''Pay bills'', descricao = None, dataVencimento = Some ''15/03/2024'',
          horaVencimento = None, importancia = Alta, id_task = ''u'', status = Pendente,
          dataCriacao = 1710496800000, dataAtualizacao = 1710496800001\<rparr>,
         \<lparr>titulo = ''Pay rent'', descricao = Some ''flat'',
          dataVencimento = Some ''16/03/2024'', horaVencimento = None, importancia = Alta,
          id_task = ''uuu'', status = Pendente,
          dataCriacao = 1710496800003, dataAtualizacao = 1710496800004\<rparr>],
      history =
        [\<lparr>idTarefa = ''u'', tipoAlteracao = ''Criacao'', campoAlterado = None,
          valorAnterior = None, valorNovo = None, origemAlteracao = ''Manual'',
          id_entry = ''uu'', dataAlteracao = 1710496800002\<rparr>,
         \<lparr>idTarefa = ''uuu'', tipoAlteracao = ''Criacao'', campoAlterado = None,
          valorAnterior = None, valorNovo = None, origemAlteracao = ''Manual'',
          id_entry = ''uuuu'', dataAlteracao = 1710496800005\<rparr>],
      clock = clock0, ticks = 6, uuids = uuids0, drawn = 4\<rparr>"
  by (simp add: twoCreated_def createdStore_eq rentRequest_def taskCreate_def validation_def
      trim_def isSpace_def uuidv4_def newDate_def recordHistory_eq clock0_def uuids0_def
      eval_nat_numeral Let_def)

lemma twoCreated_reachable: "reachable twoCreated"
  unfolding twoCreated_def by (intro reachable.step createdStore_reachable)

text \<open>
  C5. The history is append-only: after any operation (create, list, get, update,
  delete, status change, sweep, history query), and after any sequence of them, the
  history that was there is an unchanged initial part of the history that is there. The
  history query for an identifier returns, in some order, exactly the entries that the
  history holds for that identifier. In particular, where task identifiers are unique,
  deleting an existing task returns true and appends as last entry one \<open>Exclusao\<close> entry
  with no field and no values; the entries the history holds for the identifier are then
  those it held before followed by that entry, and the history query for the identifier
  returns all of them: every entry recorded for the identifier before the deletion,
  together with that entry, and nothing else; while \<open>taskGet\<close> finds no task and no
  listing contains one with that identifier. Identifiers are unique in every store that
  the operations reach from the empty one, provided the identifier supply never yields
  the same identifier twice.
\<close>

theorem history_append_only:
  "prefix (history w) (history (exec op w))
   \<and> prefix (history w) (history (execAll ops w))
   \<and> mset (taskGetHistory i None None w) = mset (entriesOf i w)
   \<and> (findIndex (\<lambda>t. id_task t = i) (tasks w) = Some k
        \<and> distinct (map id_task (tasks w)) \<longrightarrow>
      fst (taskDelete i w) = True
      \<and> take (length (history w)) (history (snd (taskDelete i w))) = history w
      \<and> map HistoryData.truncate (appended w (snd (taskDelete i w))) = [deletionEntry i]
      \<and> entriesOf i (snd (taskDelete i w)) = entriesOf i w @ appended w (snd (taskDelete i w))
      \<and> mset (taskGetHistory i None None (snd (taskDelete i w)))
          = mset (entriesOf i w) + mset (appended w (snd (taskDelete i w)))
      \<and> mset (taskGetHistory i None None (snd (taskDelete i w)))
          = mset (taskGetHistory i None None w) + mset (appended w (snd (taskDelete i w)))
      \<and> taskGet i (snd (taskDelete i w)) = None
      \<and> (\<forall>filters. \<forall>t\<in>set (fst (taskList filters (snd (taskDelete i w)))). id_task t \<noteq> i))
   \<and> (reachable w \<and> inj (uuids w) \<longrightarrow> distinct (map id_task (tasks w)))"
proof (intro conjI impI)
  show "prefix (history w) (history (exec op w))" by (rule exec_prefix)
  show "prefix (history w) (history (execAll ops w))" by (rule execAll_prefix)
  show "mset (taskGetHistory i None None w) = mset (entriesOf i w)"
    by (simp add: taskGetHistory_def entriesOf_def mset_sort_js)
next
  assume "reachable w \<and> inj (uuids w)"
  then show "distinct (map id_task (tasks w))" by (simp add: reachable_distinct)
next
  assume a: "findIndex (\<lambda>t. id_task t = i) (tasks w) = Some k
        \<and> distinct (map id_task (tasks w))"
  then have found: "findIndex (\<lambda>t. id_task t = i) (tasks w) = Some k"
    and dist: "distinct (map id_task (tasks w))" by simp_all
  from findIndex_Some [OF found] have k: "k < length (tasks w)" "id_task (tasks w ! k) = i"
    by simp_all
  note d = taskDelete_found [OF found]
  show "fst (taskDelete i w) = True" by (simp add: d)
  show "take (length (history w)) (history (snd (taskDelete i w))) = history w"
    by (simp add: d)
  show "map HistoryData.truncate (appended w (snd (taskDelete i w))) = [deletionEntry i]"
    by (simp add: d appended_def deletionEntry_def HistoryData.truncate_def)
  show "entriesOf i (snd (taskDelete i w)) = entriesOf i w @ appended w (snd (taskDelete i w))"
    by (simp add: d appended_def entriesOf_def)
  show "mset (taskGetHistory i None None (snd (taskDelete i w)))
          = mset (entriesOf i w) + mset (appended w (snd (taskDelete i w)))"
    by (simp add: d appended_def taskGetHistory_def entriesOf_def mset_sort_js)
  show "mset (taskGetHistory i None None (snd (taskDelete i w)))
          = mset (taskGetHistory i None None w) + mset (appended w (snd (taskDelete i w)))"
    by (simp add: d appended_def taskGetHistory_def mset_sort_js)
  have gone: "\<forall>t\<in>set (tasks (snd (taskDelete i w))). id_task t \<noteq> i"
    using splice1_distinct [OF dist k(1)] k(2) by (simp add: d)
  then show "taskGet i (snd (taskDelete i w)) = None"
    by (simp add: taskGet_def find_None_iff)
  show "\<forall>filters. \<forall>t\<in>set (fst (taskList filters (snd (taskDelete i w)))). id_task t \<noteq> i"
    using gone taskList_subset by blast
qed

lemmas created_defs =
  twoCreated_eq clock0_def uuids0_def recordHistory_eq taskDelete_def splice1_def
  taskGetHistory_def taskGet_def taskList_def listFilters_def sort_js_def sortValue_def
  compareFn_def comparison_def dueDateOf_def sample_dates HistoryData.truncate_def
  entriesOf_def eval_nat_numeral Let_def

theorem history_append_only_witness:
  "(findIndex (\<lambda>t. id_task t = ''u'') (tasks twoCreated) = Some 0
    \<and> reachable twoCreated \<and> inj (uuids twoCreated)
    \<and> distinct (map id_task (tasks twoCreated))
    \<and> fst (taskDelete ''u'' twoCreated) = True
    \<and> taskGet ''u'' (snd (taskDelete ''u'' twoCreated)) = None)
   \<and> (map id_task (tasks twoCreated) = [''u'', ''uuu'']
    \<and> map HistoryData.truncate (history twoCreated) =
       [\<lparr>idTarefa = ''u'', tipoAlteracao = ''Criacao'', campoAlterado = None,
         valorAnterior = None, valorNovo = None, origemAlteracao = ''Manual''\<rparr>,
        \<lparr>idTarefa = ''uuu'', tipoAlteracao = ''Criacao'', campoAlterado = None,
         valorAnterior = None, valorNovo = None, origemAlteracao = ''Manual''\<rparr>]
    \<and> map HistoryData.truncate (history (snd (taskDelete ''u'' twoCreated))) =
       [\<lparr>idTarefa = ''u'', tipoAlteracao = ''Criacao'', campoAlterado = None,
         valorAnterior = None, valorNovo = None, origemAlteracao = ''Manual''\<rparr>,
        \<lparr>idTarefa = ''uuu'', tipoAlteracao = ''Criacao'', campoAlterado = None,
         valorAnterior = None, valorNovo = None, origemAlteracao = ''Manual''\<rparr>,
        \<lparr>idTarefa = ''u'', tipoAlteracao = ''Exclusao'', campoAlterado = None,
         valorAnterior = None, valorNovo = None, origemAlteracao = ''Manual''\<rparr>]
    \<and> map HistoryData.truncate (taskGetHistory ''u'' None None twoCreated) =
       [\<lparr>idTarefa = ''u'', tipoAlteracao = ''Criacao'', campoAlterado = None,
         valorAnterior = None, valorNovo = None, origemAlteracao = ''Manual''\<rparr>]
    \<and> map HistoryData.truncate
         (taskGetHistory ''u'' None None (snd (taskDelete ''u'' twoCreated))) =
       [\<lparr>idTarefa = ''u'', tipoAlteracao = ''Exclusao'', campoAlterado = None,
         valorAnterior = None, valorNovo = None, origemAlteracao = ''Manual''\<rparr>,
        \<lparr>idTarefa = ''u'', tipoAlteracao = ''Criacao'', campoAlterado = None,
         valorAnterior = None, valorNovo = None, origemAlteracao = ''Manual''\<rparr>]
    \<and> map id_task (fst (taskList (listFilters ''Todas'' ''Data de vencimento'' ''Crescente'')
                           (snd (taskDelete ''u'' twoCreated)))) = [''uuu''])"
proof (rule conjI)
  have pre: "findIndex (\<lambda>t. id_task t = ''u'') (tasks twoCreated) = Some 0
             \<and> distinct (map id_task (tasks twoCreated))"
    by (simp add: twoCreated_eq)
  with history_append_only [of twoCreated "Delete ''u''" "[Delete ''u'']" "''u''" 0]
    twoCreated_reachable inj_uuids0
  show "findIndex (\<lambda>t. id_task t = ''u'') (tasks twoCreated) = Some 0
    \<and> reachable twoCreated \<and> inj (uuids twoCreated)
    \<and> distinct (map id_task (tasks twoCreated))
    \<and> fst (taskDelete ''u'' twoCreated) = True
    \<and> taskGet ''u'' (snd (taskDelete ''u'' twoCreated)) = None"
    by (simp add: twoCreated_eq)
next
  show "map id_task (tasks twoCreated) = [''u'', ''uuu'']
    \<and> map HistoryData.truncate (history twoCreated) =
       [\<lparr>idTarefa = ''u'', tipoAlteracao = ''Criacao'', campoAlterado = None,
         valorAnterior = None, valorNovo = None, origemAlteracao = ''Manual''\<rparr>,
        \<lparr>idTarefa = ''uuu'', tipoAlteracao = ''Criacao'', campoAlterado = None,
         valorAnterior = None, valorNovo = None, origemAlteracao = ''Manual''\<rparr>]
    \<and> map HistoryData.truncate (history (snd (taskDelete ''u'' twoCreated))) =
       [\<lparr>idTarefa = ''u'', tipoAlteracao = ''Criacao'', campoAlterado = None,
         valorAnterior = None, valorNovo = None, origemAlteracao = ''Manual''\<rparr>,
        \<lparr>idTarefa = ''uuu'', tipoAlteracao = ''Criacao'', campoAlterado = None,
         valorAnterior = None, valorNovo = None, origemAlteracao = ''Manual''\<rparr>,
        \<lparr>idTarefa = ''u'', tipoAlteracao = ''Exclusao'', campoAlterado = None,
         valorAnterior = None, valorNovo = None, origemAlteracao = ''Manual''\<rparr>]
    \<and> map HistoryData.truncate (taskGetHistory ''u'' None None twoCreated) =
       [\<lparr>idTarefa = ''u'', tipoAlteracao = ''Criacao'', campoAlterado = None,
         valorAnterior = None, valorNovo = None, origemAlteracao = ''Manual''\<rparr>]
    \<and> map HistoryData.truncate
         (taskGetHistory ''u'' None None (snd (taskDelete ''u'' twoCreated))) =
       [\<lparr>idTarefa = ''u'', tipoAlteracao = ''Exclusao'', campoAlterado = None,
         valorAnterior = None, valorNovo = None, origemAlteracao = ''Manual''\<rparr>,
        \<lparr>idTarefa = ''u'', tipoAlteracao = ''Criacao'', campoAlterado = None,
         valorAnterior = None, valorNovo = None, origemAlteracao = ''Manual''\<rparr>]
    \<and> map id_task (fst (taskList (listFilters ''Todas'' ''Data de vencimento'' ''Crescente'')
                           (snd (taskDelete ''u'' twoCreated)))) = [''uuu'']"
    by (simp add: created_defs)
qed

end
